theory Spec2Isabelle
  imports Complex_Main "HOL-Library.Word"
begin

section \<open>JavaScript strings\<close>

text \<open>
  A JavaScript string is a sequence of 16-bit code units. Literals of the source are
  written through \<open>js\<close>, which maps each character of an Isabelle string to the code
  unit of the same number. Two labels of the weekday table contain a code unit beyond
  ASCII: U+00E7 (c with cedilla) in the label of Tuesday and U+00E1 (a with acute) in the
  label of Saturday; they are written \<open>CHR 0xE7\<close> and \<open>CHR 0xE1\<close>.
\<close>

type_synonym jsstring = "16 word list"

definition js :: "string \<Rightarrow> jsstring" where
  "js s = map (\<lambda>c. word_of_nat (of_char c)) s"

text \<open>\<open>Number.prototype.toString\<close> on an integer, and \<open>padStart\<close> with a one-unit filler.\<close>

definition digitChar :: "nat \<Rightarrow> 16 word" where
  "digitChar n = word_of_nat (48 + n)"

fun natToString :: "nat \<Rightarrow> jsstring" where
  "natToString n =
     (if n < 10 then [digitChar n] else natToString (n div 10) @ [digitChar (n mod 10)])"

definition intToString :: "int \<Rightarrow> jsstring" where
  "intToString i = (if i < 0 then js ''-'' @ natToString (nat (- i)) else natToString (nat i))"

definition padStart :: "nat \<Rightarrow> 16 word \<Rightarrow> jsstring \<Rightarrow> jsstring" where
  "padStart n c s = replicate (n - length s) c @ s"

text \<open>The remainder operator \<open>%\<close> on integers: the sign follows the dividend.\<close>

definition jsRem :: "int \<Rightarrow> int \<Rightarrow> int" where
  "jsRem a b = sgn a * (\<bar>a\<bar> mod \<bar>b\<bar>)"


section \<open>The weekday table\<close>

definition dayNameMapping :: "(jsstring \<times> int) list" where
  "dayNameMapping =
     [(js ''Domingo'', 0),
      (js ''Segunda-feira'', 1),
      (js (''Ter'' @ [CHR 0xE7] @ ''a-feira''), 2),
      (js ''Quarta-feira'', 3),
      (js ''Quinta-feira'', 4),
      (js ''Sexta-feira'', 5),
      (js (''S'' @ [CHR 0xE1] @ ''bado''), 6)]"

text \<open>\<open>obj.hasOwnProperty(k)\<close> and \<open>obj[k]\<close> on an object literal with string keys.\<close>

definition hasOwnProperty :: "(jsstring \<times> 'v) list \<Rightarrow> jsstring \<Rightarrow> bool" where
  "hasOwnProperty obj k = (map_of obj k \<noteq> None)"


section \<open>The Date object\<close>

text \<open>
  The functions of this section are those of the ECMAScript language specification
  (section "Date objects"). The first group works on day numbers, counted from
  1970-01-01 (day 0).
\<close>

definition DaysInYear :: "int \<Rightarrow> int" where
  "DaysInYear y =
     (if y mod 4 \<noteq> 0 then 365
      else if y mod 100 \<noteq> 0 then 366
      else if y mod 400 \<noteq> 0 then 365
      else 366)"

definition DayFromYear :: "int \<Rightarrow> int" where
  "DayFromYear y =
     365 * (y - 1970) + (y - 1969) div 4 - (y - 1901) div 100 + (y - 1601) div 400"

text \<open>
  \<open>YearFromTime\<close> is specified as the largest year \<open>y\<close> with \<open>DayFromYear y \<le> d\<close>.
  It is computed here from an estimate that is off by at most one year;
  \<open>YearFromDay_bounds\<close> shows that the result is the specified year.
\<close>

definition YearFromDay :: "int \<Rightarrow> int" where
  "YearFromDay d =
     (let y = 1970 + (400 * d) div 146097
      in if DayFromYear (y + 1) \<le> d then y + 1
         else if DayFromYear y \<le> d then y
         else y - 1)"

definition InLeapYear :: "int \<Rightarrow> int" where
  "InLeapYear d = (if DaysInYear (YearFromDay d) = 366 then 1 else 0)"

definition DayWithinYear :: "int \<Rightarrow> int" where
  "DayWithinYear d = d - DayFromYear (YearFromDay d)"

definition MonthFromDay :: "int \<Rightarrow> int" where
  "MonthFromDay d =
     (let w = DayWithinYear d; l = InLeapYear d
      in if w < 31 then 0
         else if w < 59 + l then 1
         else if w < 90 + l then 2
         else if w < 120 + l then 3
         else if w < 151 + l then 4
         else if w < 181 + l then 5
         else if w < 212 + l then 6
         else if w < 243 + l then 7
         else if w < 273 + l then 8
         else if w < 304 + l then 9
         else if w < 334 + l then 10
         else 11)"

definition DateFromDay :: "int \<Rightarrow> int" where
  "DateFromDay d =
     (let w = DayWithinYear d; l = InLeapYear d; m = MonthFromDay d
      in if m = 0 then w + 1
         else if m = 1 then w - 30
         else if m = 2 then w - 58 - l
         else if m = 3 then w - 89 - l
         else if m = 4 then w - 119 - l
         else if m = 5 then w - 150 - l
         else if m = 6 then w - 180 - l
         else if m = 7 then w - 211 - l
         else if m = 8 then w - 242 - l
         else if m = 9 then w - 272 - l
         else if m = 10 then w - 303 - l
         else w - 333 - l)"

definition WeekDay :: "int \<Rightarrow> int" where
  "WeekDay d = (d + 4) mod 7"

text \<open>The first day of month \<open>m\<close> (0 to 11) within a year, \<open>l\<close> being 1 in a leap year.\<close>

definition monthStart :: "int \<Rightarrow> int \<Rightarrow> int" where
  "monthStart l m =
     (if m = 0 then 0
      else if m = 1 then 31
      else if m = 2 then 59 + l
      else if m = 3 then 90 + l
      else if m = 4 then 120 + l
      else if m = 5 then 151 + l
      else if m = 6 then 181 + l
      else if m = 7 then 212 + l
      else if m = 8 then 243 + l
      else if m = 9 then 273 + l
      else if m = 10 then 304 + l
      else 334 + l)"

text \<open>
  \<open>MakeDay year month date\<close>: the day number of the first of the month, plus
  \<open>date - 1\<close>; a \<open>date\<close> beyond the month's length runs over into the next months.
\<close>

definition MakeDay :: "int \<Rightarrow> int \<Rightarrow> int \<Rightarrow> int" where
  "MakeDay year month dt =
     (let ym = year + month div 12; mn = month mod 12
      in DayFromYear ym + monthStart (if DaysInYear ym = 366 then 1 else 0) mn + dt - 1)"

text \<open>
  A \<open>Date\<close> object holds a time value: the milliseconds since 1970-01-01T00:00:00 UTC, at
  most \<open>8.64 * 10^15\<close> in absolute value, or not-a-number (an invalid date, \<open>None\<close>).
  \<open>TimeClip\<close> makes a time value beyond that range invalid.
\<close>

type_synonym Date = "int option"

definition msPerDay :: int where
  "msPerDay = 86400000"

definition maxTime :: int where
  "maxTime = 8640000000000000"

definition Day :: "int \<Rightarrow> int" where
  "Day t = t div msPerDay"

definition TimeWithinDay :: "int \<Rightarrow> int" where
  "TimeWithinDay t = t mod msPerDay"

definition TimeClip :: "int \<Rightarrow> Date" where
  "TimeClip t = (if \<bar>t\<bar> > maxTime then None else Some t)"

text \<open>
  Local time. The offset \<open>tza\<close> of the local time zone from UTC, in milliseconds, is a
  parameter of every function that reads or writes a local date: the zone is one whose
  offset does not change over the dates involved.
\<close>

definition LocalTime :: "int \<Rightarrow> int \<Rightarrow> int" where
  "LocalTime tza t = t + tza"

definition UTC :: "int \<Rightarrow> int \<Rightarrow> int" where
  "UTC tza t = t - tza"

text \<open>
  The numbers the methods of a \<open>Date\<close> return and take are integers or not-a-number
  (\<open>None\<close>); \<open>plusN\<close> is \<open>+\<close> on them and \<open>numToString\<close> their conversion to a string.
\<close>

definition plusN :: "int option \<Rightarrow> int option \<Rightarrow> int option" where
  "plusN a b = (case a of None \<Rightarrow> None | Some x \<Rightarrow> (case b of None \<Rightarrow> None | Some y \<Rightarrow> Some (x + y)))"

definition numToString :: "int option \<Rightarrow> jsstring" where
  "numToString n = (case n of None \<Rightarrow> js ''NaN'' | Some i \<Rightarrow> intToString i)"

definition getFullYear :: "int \<Rightarrow> Date \<Rightarrow> int option" where
  "getFullYear tza date = map_option (\<lambda>t. YearFromDay (Day (LocalTime tza t))) date"

definition getMonth :: "int \<Rightarrow> Date \<Rightarrow> int option" where
  "getMonth tza date = map_option (\<lambda>t. MonthFromDay (Day (LocalTime tza t))) date"

definition getDate :: "int \<Rightarrow> Date \<Rightarrow> int option" where
  "getDate tza date = map_option (\<lambda>t. DateFromDay (Day (LocalTime tza t))) date"

definition getDay :: "int \<Rightarrow> Date \<Rightarrow> int option" where
  "getDay tza date = map_option (\<lambda>t. WeekDay (Day (LocalTime tza t))) date"

text \<open>
  \<open>setDate\<close> leaves an invalid date invalid; otherwise it replaces the day of the month
  in the local date, keeps the time within the day, and clips the result.
\<close>

definition setDate :: "int \<Rightarrow> Date \<Rightarrow> int option \<Rightarrow> Date" where
  "setDate tza date dt =
     (case date of
        None \<Rightarrow> None
      | Some tv \<Rightarrow>
          (case dt of
             None \<Rightarrow> None
           | Some n \<Rightarrow>
               let t = LocalTime tza tv;
                   newDate = MakeDay (YearFromDay (Day t)) (MonthFromDay (Day t)) n * msPerDay
                             + TimeWithinDay t
               in TimeClip (UTC tza newDate)))"


section \<open>JavaScript values\<close>

text \<open>
  Numbers. The type holds the values of a binary64 number: not-a-number, the two
  infinities, the negative zero, and the finite values (\<open>Fin 0\<close> is the positive zero).
  The code does no arithmetic on them; it compares one with \<open>0.0\<close>.
\<close>

datatype jsnum = NaN | PosInf | NegInf | NegZero | Fin rat

text \<open>
  The values a parsed JSON response holds, and \<open>undefined\<close>, which reading an absent
  property gives. An object is the list of its own properties (a lookup takes the first
  entry of a key).
\<close>

datatype jsval =
    Undefined
  | Null
  | Bool bool
  | Num jsnum
  | Str jsstring
  | Arr "jsval list"
  | Obj "(jsstring \<times> jsval) list"

datatype error = TypeError

definition bindE :: "error + 'a \<Rightarrow> ('a \<Rightarrow> error + 'b) \<Rightarrow> error + 'b" where
  "bindE m f = (case m of Inl e \<Rightarrow> Inl e | Inr v \<Rightarrow> f v)"

text \<open>Strict equality of numbers: not-a-number equals nothing, the two zeros are equal.\<close>

definition numStrictEq :: "jsnum \<Rightarrow> jsnum \<Rightarrow> bool" where
  "numStrictEq a b =
     (if a = NaN \<or> b = NaN then False
      else if (a = NegZero \<or> a = Fin 0) \<and> (b = NegZero \<or> b = Fin 0) then True
      else a = b)"

text \<open>
  \<open>a === b\<close>. Objects and arrays are equal by identity only; the code compares with
  a string literal, a number literal or \<open>undefined\<close>, which no object or array equals.
\<close>

fun strictEq :: "jsval \<Rightarrow> jsval \<Rightarrow> bool" where
  "strictEq (Num a) (Num b) = numStrictEq a b"
| "strictEq (Arr _) _ = False"
| "strictEq (Obj _) _ = False"
| "strictEq _ (Arr _) = False"
| "strictEq _ (Obj _) = False"
| "strictEq a b = (a = b)"

text \<open>Conversion to a boolean, as \<open>!x\<close>, \<open>x && y\<close>, \<open>x || y\<close> and \<open>if (x)\<close> do it.\<close>

fun truthy :: "jsval \<Rightarrow> bool" where
  "truthy Undefined = False"
| "truthy Null = False"
| "truthy (Bool b) = b"
| "truthy (Num n) = (n \<noteq> NaN \<and> n \<noteq> NegZero \<and> n \<noteq> Fin 0)"
| "truthy (Str s) = (s \<noteq> [])"
| "truthy (Arr _) = True"
| "truthy (Obj _) = True"

fun typeof :: "jsval \<Rightarrow> jsstring" where
  "typeof Undefined = js ''undefined''"
| "typeof Null = js ''object''"
| "typeof (Bool _) = js ''boolean''"
| "typeof (Num _) = js ''number''"
| "typeof (Str _) = js ''string''"
| "typeof (Arr _) = js ''object''"
| "typeof (Obj _) = js ''object''"

fun isArray :: "jsval \<Rightarrow> bool" where
  "isArray (Arr _) = True"
| "isArray _ = False"

fun elements :: "jsval \<Rightarrow> jsval list" where
  "elements (Arr xs) = xs"
| "elements _ = []"

text \<open>
  \<open>v.k\<close> for the property names the code reads (\<open>trips\<close>, \<open>departs\<close>, \<open>service\<close>,
  \<open>pricing\<close>, \<open>total\<close>, \<open>passenger_types\<close>, \<open>type\<close>, \<open>availability\<close>, \<open>departure\<close>,
  \<open>arrival\<close>). None of them is \<open>length\<close>, an index or a member of a built-in
  prototype, so only an object can have one; reading a property of \<open>undefined\<close> or
  \<open>null\<close> throws a TypeError.
\<close>

fun getProp :: "jsval \<Rightarrow> jsstring \<Rightarrow> error + jsval" where
  "getProp Undefined k = Inl TypeError"
| "getProp Null k = Inl TypeError"
| "getProp (Obj ps) k = (case map_of ps k of None \<Rightarrow> Inr Undefined | Some v \<Rightarrow> Inr v)"
| "getProp _ k = Inr Undefined"

text \<open>
  \<open>Array.prototype.find\<close>: the first element the callback accepts, \<open>undefined\<close> when
  there is none; an exception of the callback ends the search.
\<close>

fun find_js :: "(jsval \<Rightarrow> error + bool) \<Rightarrow> jsval list \<Rightarrow> error + jsval" where
  "find_js p [] = Inr Undefined"
| "find_js p (x # xs) =
     (case p x of Inl e \<Rightarrow> Inl e | Inr b \<Rightarrow> if b then Inr x else find_js p xs)"

text \<open>
  \<open>Array.prototype.forEach\<close> with a callback that updates the state \<open>s\<close> (here the array
  \<open>conventionalTrips\<close> the callback pushes to).
\<close>

fun forEach :: "('a \<Rightarrow> 's \<Rightarrow> error + 's) \<Rightarrow> 'a list \<Rightarrow> 's \<Rightarrow> error + 's" where
  "forEach f [] s = Inr s"
| "forEach f (x # xs) s = (case f x s of Inl e \<Rightarrow> Inl e | Inr s' \<Rightarrow> forEach f xs s')"


section \<open>Console output\<close>

text \<open>
  Each call of \<open>console.error\<close> or \<open>console.warn\<close> made by the functions below is one
  entry, in the order of the calls; an entry carries the value its message interpolates.
\<close>

datatype console =
    ErrorInvalidDayName jsstring
  | WarnNotAnObject
  | WarnNoTrips jsval

datatype level = LevelError | LevelWarn

fun levelOf :: "console \<Rightarrow> level" where
  "levelOf (ErrorInvalidDayName _) = LevelError"
| "levelOf WarnNotAnObject = LevelWarn"
| "levelOf (WarnNoTrips _) = LevelWarn"


section \<open>The recurrence calculator\<close>

definition formatDateToString :: "int \<Rightarrow> Date \<Rightarrow> jsstring" where
  "formatDateToString tza date =
     (let year = getFullYear tza date;
          month = padStart 2 (digitChar 0) (numToString (plusN (getMonth tza date) (Some 1)));
          day = padStart 2 (digitChar 0) (numToString (getDate tza date))
      in numToString year @ js ''-'' @ month @ js ''-'' @ day)"

text \<open>
  The loop of \<open>generateFutureDates\<close>: \<open>n\<close> iterations remain, \<open>nextTargetDate\<close> is the
  date object the loop advances, \<open>futureDates\<close> the array it appends to.
\<close>

fun pushDates :: "int \<Rightarrow> nat \<Rightarrow> Date \<Rightarrow> jsstring list \<Rightarrow> jsstring list" where
  "pushDates tza 0 nextTargetDate futureDates = futureDates"
| "pushDates tza (Suc n) nextTargetDate futureDates =
     pushDates tza n
       (setDate tza nextTargetDate (plusN (getDate tza nextTargetDate) (Some 7)))
       (futureDates @ [formatDateToString tza nextTargetDate])"

text \<open>
  The function reads the clock twice (\<open>new Date()\<close> for \<open>currentDate\<close> and again for
  \<open>nextTargetDate\<close>); \<open>now1\<close> and \<open>now2\<close> are the two readings, as time values. The
  result is the console output and the returned array.
\<close>

definition generateFutureDates ::
  "int \<Rightarrow> int \<Rightarrow> int \<Rightarrow> jsstring \<Rightarrow> nat \<Rightarrow> console list \<times> jsstring list" where
  "generateFutureDates tza now1 now2 targetDayName count =
     (if \<not> hasOwnProperty dayNameMapping targetDayName
      then ([ErrorInvalidDayName targetDayName], [])
      else
        let targetDayNumber = the (map_of dayNameMapping targetDayName);
            currentDate = Some now1;
            daysUntilTarget =
              map_option (\<lambda>g. jsRem (targetDayNumber - g + 7) 7) (getDay tza currentDate);
            nextTargetDate =
              setDate tza (Some now2) (plusN (getDate tza currentDate) daysUntilTarget)
        in ([], pushDates tza count nextTargetDate []))"


section \<open>The trip normalizer\<close>

record DiscountInfo =
  price :: jsnum
  availability :: jsval
  type :: jsstring

record CanonicalTrip =
  date :: jsval
  serviceType :: jsval
  departureTimestamp :: jsval
  arrivalTimestamp :: jsval
  price :: jsval
  freePassInfo :: "DiscountInfo option"
  disadvantagedYouthInfo :: "DiscountInfo option"
  disadvantagedYouthHalfInfo :: "DiscountInfo option"

text \<open>The callback \<open>pt => pt.type === name\<close> of the searches in \<open>passenger_types\<close>.\<close>

definition hasType :: "string \<Rightarrow> jsval \<Rightarrow> error + bool" where
  "hasType name pt = bindE (getProp pt (js ''type'')) (\<lambda>t. Inr (strictEq t (Str (js name))))"

text \<open>The callback \<open>pt => pt.type === "free_pass" && parseFloat(pt.total) === 0.0\<close>.\<close>

definition isFreePass :: "(jsval \<Rightarrow> jsnum) \<Rightarrow> jsval \<Rightarrow> error + bool" where
  "isFreePass parseFloat pt =
     bindE (getProp pt (js ''type'')) (\<lambda>t.
       if strictEq t (Str (js ''free_pass''))
       then bindE (getProp pt (js ''total'')) (\<lambda>total.
              Inr (numStrictEq (parseFloat total) (Fin 0)))
       else Inr False)"

text \<open>
  The block of \<open>if (trip.passenger_types && Array.isArray(trip.passenger_types))\<close>: it
  searches the array four times and updates the four locals \<open>generalPrice\<close>,
  \<open>freePassDetails\<close>, \<open>disadvantagedYouthDetails\<close> and \<open>disadvantagedYouthHalfDetails\<close>,
  whose values after the block are the result. \<open>generalPrice\<close> enters the block as
  \<open>trip.pricing.total\<close>; the other three enter it as \<open>null\<close> (\<open>None\<close>).
  \<open>parseFloat\<close> is the built-in function; the normalizer takes it as a parameter.
\<close>

definition passengerTiers ::
  "(jsval \<Rightarrow> jsnum) \<Rightarrow> jsval list \<Rightarrow> jsval
     \<Rightarrow> error + (jsval \<times> DiscountInfo option \<times> DiscountInfo option \<times> DiscountInfo option)" where
  "passengerTiers parseFloat passenger_types pricingTotal =
     bindE (find_js (hasType ''general'') passenger_types) (\<lambda>generalPt.
     bindE (if truthy generalPt
            then bindE (getProp generalPt (js ''total'')) (\<lambda>total.
                   Inr (if total \<noteq> Undefined then Num (parseFloat total) else pricingTotal))
            else Inr pricingTotal) (\<lambda>generalPrice.
     bindE (find_js (isFreePass parseFloat) passenger_types) (\<lambda>freePassPt.
     bindE (if truthy freePassPt
            then bindE (getProp freePassPt (js ''availability'')) (\<lambda>a.
                   Inr (Some \<lparr>DiscountInfo.price = Fin 0, availability = a,
                              type = js ''Gratuidade (Idoso/PCD)''\<rparr>))
            else Inr None) (\<lambda>freePassDetails.
     bindE (find_js (hasType ''disadvantaged_youth'') passenger_types) (\<lambda>disadvantagedYouthPt.
     bindE (if truthy disadvantagedYouthPt
            then bindE (getProp disadvantagedYouthPt (js ''total'')) (\<lambda>total.
                 bindE (getProp disadvantagedYouthPt (js ''availability'')) (\<lambda>a.
                   Inr (Some \<lparr>DiscountInfo.price = parseFloat total, availability = a,
                              type = js ''Jovem Baixa Renda 100%''\<rparr>)))
            else Inr None) (\<lambda>disadvantagedYouthDetails.
     bindE (find_js (hasType ''disadvantaged_youth_half'') passenger_types)
       (\<lambda>disadvantagedYouthHalfPt.
     bindE (if truthy disadvantagedYouthHalfPt
            then bindE (getProp disadvantagedYouthHalfPt (js ''total'')) (\<lambda>total.
                 bindE (getProp disadvantagedYouthHalfPt (js ''availability'')) (\<lambda>a.
                   Inr (Some \<lparr>DiscountInfo.price = parseFloat total, availability = a,
                              type = js ''Jovem Baixa Renda 50%''\<rparr>)))
            else Inr None) (\<lambda>disadvantagedYouthHalfDetails.
     Inr (generalPrice, freePassDetails, disadvantagedYouthDetails,
          disadvantagedYouthHalfDetails)))))))))"

text \<open>
  The object pushed for one trip whose service is \<open>CONVENCIONAL\<close>: the body of the
  \<open>if (trip.service === "CONVENCIONAL")\<close> of the callback, up to the \<open>push\<close>.
\<close>

definition canonicalTrip :: "(jsval \<Rightarrow> jsnum) \<Rightarrow> jsval \<Rightarrow> jsval \<Rightarrow> error + CanonicalTrip" where
  "canonicalTrip parseFloat searchDate trip =
     bindE (getProp trip (js ''pricing'')) (\<lambda>pricing.
     bindE (getProp pricing (js ''total'')) (\<lambda>pricingTotal.
     bindE (getProp trip (js ''passenger_types'')) (\<lambda>passenger_types.
     bindE (if truthy passenger_types \<and> isArray passenger_types
            then passengerTiers parseFloat (elements passenger_types) pricingTotal
            else Inr (pricingTotal, None, None, None))
       (\<lambda>(generalPrice, freePassDetails, disadvantagedYouthDetails,
           disadvantagedYouthHalfDetails).
     bindE (getProp trip (js ''service'')) (\<lambda>service.
     bindE (getProp trip (js ''departure'')) (\<lambda>departure.
     bindE (getProp trip (js ''arrival'')) (\<lambda>arrival.
       Inr \<lparr>date = searchDate,
            serviceType = service,
            departureTimestamp = departure,
            arrivalTimestamp = arrival,
            price = generalPrice,
            freePassInfo = freePassDetails,
            disadvantagedYouthInfo = disadvantagedYouthDetails,
            disadvantagedYouthHalfInfo = disadvantagedYouthHalfDetails\<rparr>)))))))"

text \<open>The callback of \<open>jsonData.trips.forEach\<close>; \<open>conventionalTrips\<close> is the array it pushes to.\<close>

definition tripCallback ::
  "(jsval \<Rightarrow> jsnum) \<Rightarrow> jsval \<Rightarrow> jsval \<Rightarrow> CanonicalTrip list \<Rightarrow> error + CanonicalTrip list" where
  "tripCallback parseFloat searchDate trip conventionalTrips =
     bindE (getProp trip (js ''service'')) (\<lambda>service.
       if strictEq service (Str (js ''CONVENCIONAL''))
       then bindE (canonicalTrip parseFloat searchDate trip) (\<lambda>c.
              Inr (conventionalTrips @ [c]))
       else Inr conventionalTrips)"

text \<open>
  The result is the console output and either the returned array or the exception that
  leaves the function. Past the first guard \<open>jsonData\<close> is an object or an array, so
  reading its properties does not throw.
\<close>

definition processAndFilterTrips ::
  "(jsval \<Rightarrow> jsnum) \<Rightarrow> jsval \<Rightarrow> console list \<times> (error + CanonicalTrip list)" where
  "processAndFilterTrips parseFloat jsonData =
     (if \<not> truthy jsonData \<or> typeof jsonData \<noteq> js ''object''
      then ([WarnNotAnObject], Inr [])
      else
        case (getProp jsonData (js ''trips''), getProp jsonData (js ''departs'')) of
          (Inr trips, Inr departs) \<Rightarrow>
            if \<not> truthy trips \<or> \<not> isArray trips
            then ([WarnNoTrips (if truthy departs then departs else Str (js ''unknown date''))],
                  Inr [])
            else ([], forEach (tripCallback parseFloat departs) (elements trips) [])
        | _ \<Rightarrow> ([], Inl TypeError))"


section \<open>parseFloat and parseInt\<close>

text \<open>
  White space and line terminators, which both functions skip at the start of the string.
\<close>

definition isWhiteSpace :: "16 word \<Rightarrow> bool" where
  "isWhiteSpace c =
     (c \<in> set [0x0009, 0x000A, 0x000B, 0x000C, 0x000D, 0x0020, 0x00A0, 0x1680, 0x2028,
               0x2029, 0x202F, 0x205F, 0x3000, 0xFEFF]
      \<or> (0x2000 \<le> c \<and> c \<le> 0x200A))"

definition isDigit :: "16 word \<Rightarrow> bool" where
  "isDigit c = (0x30 \<le> c \<and> c \<le> 0x39)"

definition digitsValue :: "jsstring \<Rightarrow> nat" where
  "digitsValue ds = foldl (\<lambda>v c. 10 * v + (unat c - 48)) 0 ds"

text \<open>An optional sign: whether it is a minus, and the rest of the string.\<close>

definition takeSign :: "jsstring \<Rightarrow> bool \<times> jsstring" where
  "takeSign s =
     (case s of
        c # r \<Rightarrow> if c = 0x2D then (True, r) else if c = 0x2B then (False, r) else (False, s)
      | [] \<Rightarrow> (False, s))"

text \<open>
  \<open>parseInt(s, 10)\<close>: the integer that the longest prefix of digits denotes, after white
  space and a sign; \<open>None\<close> is not-a-number. The value is the exact integer (a binary64
  number rounds it beyond \<open>2 ^ 53\<close>, which keeps its sign and keeps it above any array
  length).
\<close>

definition parseInt10 :: "jsstring \<Rightarrow> int option" where
  "parseInt10 s =
     (let (neg, r) = takeSign (dropWhile isWhiteSpace s);
          ds = takeWhile isDigit r
      in if ds = [] then None
         else Some (if neg then - int (digitsValue ds) else int (digitsValue ds)))"

text \<open>The exponent part of a decimal literal at the start of \<open>s\<close>; 0 when there is none.\<close>

definition exponentPart :: "jsstring \<Rightarrow> int" where
  "exponentPart s =
     (case s of
        c # r \<Rightarrow>
          if c = 0x65 \<or> c = 0x45 then
            (let (neg, r') = takeSign r; ds = takeWhile isDigit r'
             in if ds = [] then 0
                else if neg then - int (digitsValue ds) else int (digitsValue ds))
          else 0
      | [] \<Rightarrow> 0)"

definition pow10 :: "int \<Rightarrow> rat" where
  "pow10 e = (if 0 \<le> e then 10 ^ nat e else 1 / 10 ^ nat (- e))"

text \<open>
  The longest prefix of \<open>s\<close> that is an unsigned decimal literal (the grammar
  \<open>StrUnsignedDecimalLiteral\<close>): \<open>Infinity\<close>, or digits with an optional fraction and
  exponent. \<open>None\<close> when no prefix is one.
\<close>

definition unsignedDecimal :: "jsstring \<Rightarrow> (rat option) option" where
  "unsignedDecimal s =
     (if take 8 s = js ''Infinity'' then Some None
      else
        let ip = takeWhile isDigit s;
            r1 = dropWhile isDigit s;
            dot = (r1 \<noteq> [] \<and> hd r1 = 0x2E);
            fp = (if dot then takeWhile isDigit (tl r1) else []);
            r2 = (if dot then dropWhile isDigit (tl r1) else r1)
        in if ip = [] \<and> fp = [] then None
           else Some (Some (of_nat (digitsValue (ip @ fp))
                            * pow10 (exponentPart r2 - int (length fp)))))"

text \<open>
  \<open>parseFloat\<close> without the final rounding to binary64: the value is the exact value of
  the decimal literal. The argument is converted to a string first: a number gives its
  own value back (the negative zero prints as \<open>0\<close>), an array prints its elements
  separated by commas, so that its first element decides, and \<open>null\<close>, \<open>undefined\<close>, a
  boolean and an object print as words that are no number.
\<close>

fun parseFloat_exact :: "jsval \<Rightarrow> jsnum" where
  "parseFloat_exact (Str s) =
     (let (neg, r) = takeSign (dropWhile isWhiteSpace s)
      in case unsignedDecimal r of
           None \<Rightarrow> NaN
         | Some None \<Rightarrow> if neg then NegInf else PosInf
         | Some (Some v) \<Rightarrow> if neg then (if v = 0 then NegZero else Fin (- v)) else Fin v)"
| "parseFloat_exact (Num n) = (if n = NegZero then Fin 0 else n)"
| "parseFloat_exact (Arr (x # xs)) = parseFloat_exact x"
| "parseFloat_exact _ = NaN"


section \<open>The selection prompt\<close>

text \<open>
  The promise \<open>promptUserForTripSelection\<close> returns, once the user has answered: resolved
  with \<open>null\<close> (\<open>None\<close>) or with an option, rejected with an error, or left pending when
  the handler of the answer calls neither \<open>resolve\<close> nor \<open>reject\<close>.
\<close>

datatype 'a promise = Pending | Resolved "'a option" | Rejected jsstring

definition promptUserForTripSelection :: "'a list \<Rightarrow> jsstring \<Rightarrow> 'a promise" where
  "promptUserForTripSelection tripOptions answer =
     (case parseInt10 answer of
        None \<Rightarrow> Rejected (js ''Op'' @ [0xE7, 0xE3] @ js ''o inv'' @ [0xE1]
                          @ js ''lida. Por favor, digite um n'' @ [0xFA] @ js ''mero.'')
      | Some choice \<Rightarrow>
          if choice = 0 then Resolved None
          else if choice > 0 \<and> choice \<le> int (length tripOptions)
          then Resolved (Some (tripOptions ! nat (choice - 1)))
          else Pending)"

text \<open>
  The routes configured in \<open>main\<close>, each by its origin and destination code, in the order
  of the menu.
\<close>

definition tripOptionsConfig :: "(string \<times> string) list" where
  "tripOptionsConfig =
     [(''sao-paulo'', ''goiania''), (''goiania'', ''sao-luis''),
      (''sao-luis'', ''goiania''), (''goiania'', ''sao-paulo'')]"


section \<open>Vocabulary of the statements\<close>

text \<open>
  The value of a property, \<open>undefined\<close> when it is absent or the holder has none; the
  trips of a payload and the entries of a trip's \<open>passenger_types\<close> array, empty when
  there is no such array; a trip whose service is \<open>CONVENCIONAL\<close>; an entry of a given
  type; an entry of type \<open>free_pass\<close> whose total \<open>parseFloat\<close> maps to a zero; the
  general price as the first entry of type \<open>general\<close> decides it.
\<close>

definition propOf :: "string \<Rightarrow> jsval \<Rightarrow> jsval" where
  "propOf name v = (case getProp v (js name) of Inr x \<Rightarrow> x | Inl _ \<Rightarrow> Undefined)"

definition tripsOf :: "jsval \<Rightarrow> jsval list" where
  "tripsOf jsonData = elements (propOf ''trips'' jsonData)"

definition isConventional :: "jsval \<Rightarrow> bool" where
  "isConventional trip = (getProp trip (js ''service'') = Inr (Str (js ''CONVENCIONAL'')))"

definition passengerTypes :: "jsval \<Rightarrow> jsval list" where
  "passengerTypes trip =
     (case getProp trip (js ''passenger_types'') of Inr (Arr pts) \<Rightarrow> pts | _ \<Rightarrow> [])"

definition entryOfType :: "string \<Rightarrow> jsval \<Rightarrow> bool" where
  "entryOfType name pt = (getProp pt (js ''type'') = Inr (Str (js name)))"

definition freePassEntry :: "(jsval \<Rightarrow> jsnum) \<Rightarrow> jsval \<Rightarrow> bool" where
  "freePassEntry parseFloat pt =
     (entryOfType ''free_pass'' pt \<and> numStrictEq (parseFloat (propOf ''total'' pt)) (Fin 0))"

definition generalPriceOf :: "(jsval \<Rightarrow> jsnum) \<Rightarrow> jsval list \<Rightarrow> jsval \<Rightarrow> jsval" where
  "generalPriceOf pf pts pricingTotal =
     (case List.find (entryOfType ''general'') pts of
        Some g \<Rightarrow> if propOf ''total'' g \<noteq> Undefined then Num (pf (propOf ''total'' g)) else pricingTotal
      | None \<Rightarrow> pricingTotal)"


text \<open>The update of the date object in one round of the loop of \<open>generateFutureDates\<close>.\<close>

definition advance :: "int \<Rightarrow> Date \<Rightarrow> Date" where
  "advance tza dateObj = setDate tza dateObj (plusN (getDate tza dateObj) (Some 7))"

text \<open>
  The calendar day that a string of the form year, \<open>-\<close>, two digits, \<open>-\<close>, two
  digits denotes, as a day number: the three fields are read as integers, the month
  counted from 1. A string without the two separators in place, or with a field that is
  no integer, denotes no day.
\<close>

definition dateOfString :: "jsstring \<Rightarrow> int option" where
  "dateOfString s =
     (let n = length s
      in if n < 7 \<or> s ! (n - 3) \<noteq> 0x2D \<or> s ! (n - 6) \<noteq> 0x2D then None
         else
           case (parseInt10 (take (n - 6) s), parseInt10 (take 2 (drop (n - 5) s)),
                 parseInt10 (drop (n - 2) s)) of
             (Some y, Some m, Some d) \<Rightarrow> Some (MakeDay y (m - 1) d)
           | _ \<Rightarrow> None)"


section \<open>Example payloads\<close>

text \<open>
  A passenger-type entry with three seats available, a trip priced at 80 with a given
  service and given entries, the same trip without a \<open>passenger_types\<close> property, a
  payload for 2025-01-02, and the record the normalizer builds for such a trip, given
  its price and its three sub-records.
\<close>

definition examplePassengerType :: "string \<Rightarrow> string \<Rightarrow> jsval" where
  "examplePassengerType ty amount =
     Obj [(js ''type'', Str (js ty)), (js ''total'', Str (js amount)),
          (js ''availability'', Num (Fin 3))]"

definition exampleTrip :: "string \<Rightarrow> jsval list \<Rightarrow> jsval" where
  "exampleTrip service pts =
     Obj [(js ''service'', Str (js service)),
          (js ''pricing'', Obj [(js ''total'', Num (Fin 80))]),
          (js ''departure'', Str (js ''2025-01-02T08:00:00'')),
          (js ''arrival'', Str (js ''2025-01-02T20:00:00'')),
          (js ''passenger_types'', Arr pts)]"

definition exampleTripNoTiers :: "string \<Rightarrow> jsval" where
  "exampleTripNoTiers service =
     Obj [(js ''service'', Str (js service)),
          (js ''pricing'', Obj [(js ''total'', Num (Fin 80))]),
          (js ''departure'', Str (js ''2025-01-02T08:00:00'')),
          (js ''arrival'', Str (js ''2025-01-02T20:00:00''))]"

definition examplePayload :: "jsval list \<Rightarrow> jsval" where
  "examplePayload trips = Obj [(js ''departs'', Str (js ''2025-01-02'')), (js ''trips'', Arr trips)]"

definition exampleCanonical ::
  "jsval \<Rightarrow> DiscountInfo option \<Rightarrow> DiscountInfo option \<Rightarrow> DiscountInfo option \<Rightarrow> CanonicalTrip" where
  "exampleCanonical p f y h =
     \<lparr>date = Str (js ''2025-01-02''),
      serviceType = Str (js ''CONVENCIONAL''),
      departureTimestamp = Str (js ''2025-01-02T08:00:00''),
      arrivalTimestamp = Str (js ''2025-01-02T20:00:00''),
      price = p,
      freePassInfo = f,
      disadvantagedYouthInfo = y,
      disadvantagedYouthHalfInfo = h\<rparr>"


section \<open>The calendar\<close>

lemma div_bounds:
  fixes x :: int
  assumes "0 < k"
  shows "k * (x div k) \<le> x" and "x < k * (x div k) + k"
proof -
  have "x = k * (x div k) + x mod k" by simp
  moreover have "0 \<le> x mod k" "x mod k < k" using assms by simp_all
  ultimately show "k * (x div k) \<le> x" "x < k * (x div k) + k" by linarith+
qed

lemma DayFromYear_bounds:
  "146097 * (y - 1970) - 506 \<le> 400 * DayFromYear y"
  "400 * DayFromYear y \<le> 146097 * (y - 1970) + 589"
proof -
  define a where "a = (y - 1969) div 4"
  define b where "b = (y - 1901) div 100"
  define c where "c = (y - 1601) div 400"
  have a: "4 * a \<le> y - 1969" "y - 1969 < 4 * a + 4"
    using div_bounds[of 4 "y - 1969"] by (simp_all add: a_def)
  have b: "100 * b \<le> y - 1901" "y - 1901 < 100 * b + 100"
    using div_bounds[of 100 "y - 1901"] by (simp_all add: b_def)
  have c: "400 * c \<le> y - 1601" "y - 1601 < 400 * c + 400"
    using div_bounds[of 400 "y - 1601"] by (simp_all add: c_def)
  have F: "DayFromYear y = 365 * (y - 1970) + a - b + c"
    by (simp add: DayFromYear_def a_def b_def c_def)
  show "146097 * (y - 1970) - 506 \<le> 400 * DayFromYear y"
    unfolding F using a b c by (simp add: algebra_simps)
  show "400 * DayFromYear y \<le> 146097 * (y - 1970) + 589"
    unfolding F using a b c by (simp add: algebra_simps)
qed

lemma YearFromDay_bounds:
  "DayFromYear (YearFromDay d) \<le> d \<and> d < DayFromYear (YearFromDay d + 1)"
proof -
  define q where "q = (400 * d) div 146097"
  have q: "146097 * q \<le> 400 * d" "400 * d < 146097 * q + 146097"
    using div_bounds[of 146097 "400 * d"] by (simp_all add: q_def)
  define lo where "lo = DayFromYear (1970 + q - 1)"
  define hi where "hi = DayFromYear (1970 + q + 2)"
  have "400 * lo \<le> 146097 * (q - 1) + 589"
    using DayFromYear_bounds(2)[of "1970 + q - 1"] by (simp add: lo_def)
  then have lo: "lo \<le> d" using q by (simp add: algebra_simps)
  have "146097 * (q + 2) - 506 \<le> 400 * hi"
    using DayFromYear_bounds(1)[of "1970 + q + 2"] by (simp add: hi_def)
  then have hi: "d < hi" using q by (simp add: algebra_simps)
  show ?thesis
    unfolding YearFromDay_def Let_def q_def[symmetric]
    using lo hi by (auto simp: algebra_simps lo_def hi_def)
qed

lemma div_add_one:
  fixes x k :: int
  assumes "0 < k"
  shows "(x + 1) div k = x div k + (if (x + 1) mod k = 0 then 1 else 0)"
proof -
  define q where "q = x div k"
  define r where "r = x mod k"
  have x: "x = k * q + r" and r: "0 \<le> r" "r < k"
    using assms by (simp_all add: q_def r_def)
  show ?thesis
  proof (cases "r + 1 = k")
    case True
    then have e: "x + 1 = k * (q + 1) + 0" using x by (simp add: algebra_simps)
    have "(x + 1) div k = q + 1" using int_div_pos_eq[OF e] assms by simp
    moreover have "(x + 1) mod k = 0" using int_mod_pos_eq[OF e] assms by simp
    ultimately show ?thesis by (simp add: q_def)
  next
    case False
    then have lt: "r + 1 < k" using r by simp
    have e: "x + 1 = k * q + (r + 1)" using x by simp
    have "(x + 1) div k = q" using int_div_pos_eq[OF e] r lt by simp
    moreover have "(x + 1) mod k = r + 1" using int_mod_pos_eq[OF e] r lt by simp
    ultimately show ?thesis using r by (simp add: q_def)
  qed
qed

lemma mod_shift:
  fixes y :: int
  shows "(y - 1968) mod 4 = y mod 4" "(y - 1900) mod 100 = y mod 100" "(y - 1600) mod 400 = y mod 400"
proof -
  have "(y - 1968) mod 4 = (y + 4 * (- 492)) mod 4" by simp
  then show "(y - 1968) mod 4 = y mod 4" by (simp only: mod_mult_self2)
  have "(y - 1900) mod 100 = (y + 100 * (- 19)) mod 100" by simp
  then show "(y - 1900) mod 100 = y mod 100" by (simp only: mod_mult_self2)
  have "(y - 1600) mod 400 = (y + 400 * (- 4)) mod 400" by simp
  then show "(y - 1600) mod 400 = y mod 400" by (simp only: mod_mult_self2)
qed

lemma mod_100_4:
  fixes y :: int
  assumes "y mod 100 = 0" shows "y mod 4 = 0"
proof -
  have "(100::int) dvd y" using assms by (simp add: dvd_eq_mod_eq_0)
  moreover have "(4::int) dvd 100" by simp
  ultimately have "4 dvd y" by (rule dvd_trans[rotated])
  then show ?thesis by (simp add: dvd_eq_mod_eq_0)
qed

lemma mod_400_100:
  fixes y :: int
  assumes "y mod 400 = 0" shows "y mod 100 = 0"
proof -
  have "(400::int) dvd y" using assms by (simp add: dvd_eq_mod_eq_0)
  moreover have "(100::int) dvd 400" by simp
  ultimately have "100 dvd y" by (rule dvd_trans[rotated])
  then show ?thesis by (simp add: dvd_eq_mod_eq_0)
qed

lemma DayFromYear_Suc: "DayFromYear (y + 1) = DayFromYear y + DaysInYear y"
proof -
  have a: "(y + 1 - 1969) div 4 = (y - 1969) div 4 + (if y mod 4 = 0 then 1 else 0)"
    using div_add_one[of 4 "y - 1969"] mod_shift(1)[of y] by (simp add: algebra_simps)
  have b: "(y + 1 - 1901) div 100 = (y - 1901) div 100 + (if y mod 100 = 0 then 1 else 0)"
    using div_add_one[of 100 "y - 1901"] mod_shift(2)[of y] by (simp add: algebra_simps)
  have c: "(y + 1 - 1601) div 400 = (y - 1601) div 400 + (if y mod 400 = 0 then 1 else 0)"
    using div_add_one[of 400 "y - 1601"] mod_shift(3)[of y] by (simp add: algebra_simps)
  show ?thesis
    unfolding DayFromYear_def DaysInYear_def a b c
    using mod_100_4[of y] mod_400_100[of y] by auto
qed

lemma MonthFromDay_range: "0 \<le> MonthFromDay d \<and> MonthFromDay d \<le> 11"
  by (simp add: MonthFromDay_def Let_def)

lemma DayWithinYear_nonneg: "0 \<le> DayWithinYear d"
  using YearFromDay_bounds[of d] by (simp add: DayWithinYear_def)

lemma month_date_within:
  "monthStart (InLeapYear d) (MonthFromDay d) + DateFromDay d - 1 = DayWithinYear d"
  by (simp add: MonthFromDay_def DateFromDay_def monthStart_def Let_def)

lemma MakeDay_roundtrip:
  "MakeDay (YearFromDay d) (MonthFromDay d) (DateFromDay d + k) = d + k"
proof -
  have "MonthFromDay d div 12 = 0" "MonthFromDay d mod 12 = MonthFromDay d"
    using MonthFromDay_range[of d] by simp_all
  then have "MakeDay (YearFromDay d) (MonthFromDay d) (DateFromDay d + k)
      = DayFromYear (YearFromDay d) + monthStart (InLeapYear d) (MonthFromDay d) + DateFromDay d + k - 1"
    by (simp add: MakeDay_def Let_def InLeapYear_def)
  also have "\<dots> = DayFromYear (YearFromDay d) + DayWithinYear d + k"
    using month_date_within[of d] by simp
  finally show ?thesis by (simp add: DayWithinYear_def)
qed

lemma DayWithinYear_upper: "DayWithinYear d < DaysInYear (YearFromDay d)"
  using YearFromDay_bounds[of d] DayFromYear_Suc[of "YearFromDay d"]
  by (simp add: DayWithinYear_def)


section \<open>Strings and the weekday table\<close>

lemma js_inj: "js a = js b \<longleftrightarrow> a = b"
proof -
  have "inj (\<lambda>c::char. (word_of_nat (of_char c) :: 16 word))"
  proof (rule injI)
    fix x y :: char
    assume e: "(word_of_nat (of_char x) :: 16 word) = word_of_nat (of_char y)"
    have lt: "(of_char c :: nat) < 256" for c
      by (metis of_char_mod_256 mod_less_divisor zero_less_numeral)
    have "(of_char x :: nat) < 2 ^ 16"
      using lt[of x] by (rule less_trans) simp
    moreover have "(of_char y :: nat) < 2 ^ 16"
      using lt[of y] by (rule less_trans) simp
    ultimately
    have "(of_char x :: nat) = of_char y"
      using e by (simp add: word_of_nat_eq_iff take_bit_nat_eq_self)
    then show "x = y" by simp
  qed
  then show ?thesis by (auto simp: js_def inj_map_eq_map)
qed

lemma dayNameMapping_ordinal:
  "map_of dayNameMapping W = Some w \<Longrightarrow> 0 \<le> w \<and> w \<le> 6"
  by (auto simp: dayNameMapping_def split: if_splits)


section \<open>Time values and the loop\<close>

lemma Day_add: "Day (t + k * msPerDay) = Day t + k"
  by (simp add: Day_def msPerDay_def)

lemma TimeWithinDay_add: "TimeWithinDay (t + k * msPerDay) = TimeWithinDay t"
  by (simp add: TimeWithinDay_def msPerDay_def)

lemma Day_TimeWithinDay: "Day t * msPerDay + TimeWithinDay t = t"
  by (simp add: Day_def TimeWithinDay_def)

lemma setDate_same_day:
  assumes "Day (LocalTime tza t2) = Day (LocalTime tza t1)"
  shows "setDate tza (Some t2) (plusN (getDate tza (Some t1)) (Some k))
           = TimeClip (t2 + k * msPerDay)"
proof -
  let ?d = "Day (LocalTime tza t2)"
  have "MakeDay (YearFromDay ?d) (MonthFromDay ?d) (DateFromDay ?d + k) * msPerDay
          + TimeWithinDay (LocalTime tza t2)
        = (?d + k) * msPerDay + TimeWithinDay (LocalTime tza t2)"
    by (simp add: MakeDay_roundtrip)
  also have "\<dots> = LocalTime tza t2 + k * msPerDay"
    using Day_TimeWithinDay[of "LocalTime tza t2"] by (simp add: algebra_simps)
  finally show ?thesis
    using assms by (simp add: setDate_def getDate_def plusN_def Let_def UTC_def LocalTime_def)
qed

lemma setDate_getDate:
  "setDate tza (Some t) (plusN (getDate tza (Some t)) (Some k)) = TimeClip (t + k * msPerDay)"
  by (rule setDate_same_day) simp

lemma advance_None: "advance tza None = None"
  by (simp add: advance_def setDate_def)

lemma advance_Some: "advance tza (Some t) = TimeClip (t + 7 * msPerDay)"
  by (simp add: advance_def setDate_getDate)

lemma advance_funpow:
  assumes "- maxTime \<le> t"
  shows "(advance tza ^^ i) (TimeClip t) = TimeClip (t + 7 * int i * msPerDay)"
proof (induction i)
  case 0
  then show ?case by simp
next
  case (Suc i)
  have m: "0 < msPerDay" by (simp add: msPerDay_def)
  define x where "x = 7 * int i * msPerDay"
  have nn: "0 \<le> x" using m by (simp add: x_def)
  show ?case
  proof (cases "t + 7 * int i * msPerDay \<le> maxTime")
    case True
    then have "\<bar>t + x\<bar> \<le> maxTime"
      using assms nn unfolding x_def[symmetric] by linarith
    then have "TimeClip (t + 7 * int i * msPerDay) = Some (t + 7 * int i * msPerDay)"
      by (simp add: TimeClip_def x_def)
    then show ?thesis
      by (simp add: Suc.IH advance_Some algebra_simps)
  next
    case False
    then have a: "TimeClip (t + 7 * int i * msPerDay) = None"
      by (simp add: TimeClip_def)
    have "t + 7 * int (Suc i) * msPerDay > maxTime"
      using False m by (simp add: algebra_simps)
    then have "TimeClip (t + 7 * int (Suc i) * msPerDay) = None"
      by (simp add: TimeClip_def)
    then show ?thesis
      by (simp add: Suc.IH a advance_None)
  qed
qed

lemma pushDates_eq:
  "pushDates tza n d acc
     = acc @ map (\<lambda>i. formatDateToString tza ((advance tza ^^ i) d)) [0..<n]"
proof (induction n arbitrary: d acc)
  case 0
  then show ?case by simp
next
  case (Suc n)
  have "[0..<Suc n] = 0 # map Suc [0..<n]"
    by (simp add: upt_conv_Cons map_Suc_upt del: upt_Suc)
  then have "map (\<lambda>i. formatDateToString tza ((advance tza ^^ i) d)) [0..<Suc n]
      = formatDateToString tza d
        # map (\<lambda>i. formatDateToString tza ((advance tza ^^ i) (advance tza d))) [0..<n]"
    by (simp add: o_def funpow_swap1 del: upt_Suc)
  moreover have "setDate tza d (plusN (getDate tza d) (Some 7)) = advance tza d"
    by (simp add: advance_def)
  ultimately show ?case
    by (simp add: Suc.IH del: upt_Suc)
qed


section \<open>Date strings\<close>

lemma DateFromDay_range: "1 \<le> DateFromDay d \<and> DateFromDay d \<le> 31"
proof -
  have "0 \<le> DayWithinYear d" "DayWithinYear d < 365 + InLeapYear d"
    using DayWithinYear_nonneg[of d] DayWithinYear_upper[of d]
    by (auto simp: InLeapYear_def DaysInYear_def split: if_splits)
  moreover have "InLeapYear d = 0 \<or> InLeapYear d = 1" by (simp add: InLeapYear_def)
  ultimately show ?thesis
    by (auto simp: MonthFromDay_def DateFromDay_def Let_def)
qed

lemma unat_digitChar: "n < 10 \<Longrightarrow> unat (digitChar n) = 48 + n"
  unfolding digitChar_def unat_of_nat by simp

lemma digitChar_props:
  assumes "n < 10"
  shows "isDigit (digitChar n)" "\<not> isWhiteSpace (digitChar n)"
    "digitChar n \<noteq> 0x2D" "digitChar n \<noteq> 0x2B"
proof -
  have u: "unat (digitChar n) = 48 + n" using assms by (rule unat_digitChar)
  show "isDigit (digitChar n)"
    using assms by (simp add: isDigit_def word_le_nat_alt u)
  have ne: "digitChar n \<noteq> c" if "unat c < 48 \<or> 57 < unat c" for c
    using that u assms by auto
  show "digitChar n \<noteq> 0x2D" "digitChar n \<noteq> 0x2B"
    by (rule ne, simp)+
  show "\<not> isWhiteSpace (digitChar n)"
    using u assms by (auto simp: isWhiteSpace_def word_le_nat_alt)
qed


lemma digitsValue_snoc: "digitsValue (ds @ [c]) = 10 * digitsValue ds + (unat c - 48)"
  by (simp add: digitsValue_def)

lemma natToString_props:
  "natToString n \<noteq> [] \<and> list_all isDigit (natToString n) \<and> digitsValue (natToString n) = n"
proof (induction n rule: natToString.induct)
  case (1 n)
  show ?case
  proof (cases "n < 10")
    case True
    then show ?thesis
      by (simp add: digitChar_props unat_digitChar digitsValue_def)
  next
    case False
    have m: "n mod 10 < 10" by simp
    have e: "natToString n = natToString (n div 10) @ [digitChar (n mod 10)]"
      using False by (subst natToString.simps) simp
    show ?thesis
      using "1.IH"[OF False] m
      by (simp add: e digitsValue_snoc digitChar_props unat_digitChar del: natToString.simps)
  qed
qed

lemma natToString_hd:
  "\<exists>c r. natToString n = c # r \<and> isDigit c"
  using natToString_props[of n] by (cases "natToString n") simp_all

lemma isDigit_not_space_sign:
  assumes "isDigit c"
  shows "\<not> isWhiteSpace c" "c \<noteq> 0x2D" "c \<noteq> 0x2B"
  using assms by (auto simp: isDigit_def isWhiteSpace_def word_le_nat_alt)

lemma takeWhile_all: "list_all P xs \<Longrightarrow> takeWhile P xs = xs"
  by (induction xs) simp_all

lemma parseInt10_digits:
  assumes "ds \<noteq> []" and "list_all isDigit ds"
  shows "parseInt10 ds = Some (int (digitsValue ds))"
    and "parseInt10 (0x2D # ds) = Some (- int (digitsValue ds))"
proof -
  obtain c r where ds: "ds = c # r" using assms(1) by (cases ds) auto
  then have c: "isDigit c" using assms(2) by simp
  note n = isDigit_not_space_sign[OF c]
  have tw: "takeWhile isDigit ds = ds" using assms(2) by (rule takeWhile_all)
  have d: "dropWhile isWhiteSpace ds = ds" using ds n(1) by simp
  have s: "takeSign ds = (False, ds)" using ds n(2,3) by (simp add: takeSign_def)
  show "parseInt10 ds = Some (int (digitsValue ds))"
    using assms(1) by (simp add: parseInt10_def d s tw)
  have nw: "\<not> isWhiteSpace (0x2D :: 16 word)"
    by (simp add: isWhiteSpace_def)
  have s': "takeSign (0x2D # ds) = (True, ds)" by (simp add: takeSign_def)
  show "parseInt10 (0x2D # ds) = Some (- int (digitsValue ds))"
    using assms(1) by (simp add: parseInt10_def nw s' tw)
qed

lemma js_dash: "js ''-'' = [0x2D]"
  by (simp add: js_def)

lemma parseInt10_intToString: "parseInt10 (intToString i) = Some i"
  using natToString_props[of "nat i"] natToString_props[of "nat (- i)"]
  by (simp add: intToString_def js_dash parseInt10_digits)

lemma two_digits:
  assumes "0 \<le> m" "m < 100"
  shows "length (padStart 2 (digitChar 0) (intToString m)) = 2
       \<and> parseInt10 (padStart 2 (digitChar 0) (intToString m)) = Some m"
proof -
  define k where "k = nat m"
  have k: "k < 100" "int k = m" using assms by (simp_all add: k_def)
  have i: "intToString m = natToString k" using assms by (simp add: intToString_def k_def)
  show ?thesis
  proof (cases "k < 10")
    case True
    then have p: "padStart 2 (digitChar 0) (intToString m) = [digitChar 0, digitChar k]"
      by (simp add: i padStart_def)
    have "parseInt10 [digitChar 0, digitChar k] = Some (int (digitsValue [digitChar 0, digitChar k]))"
      using True by (intro parseInt10_digits(1)) (simp_all add: digitChar_props)
    then show ?thesis
      using True k by (simp add: p digitsValue_def unat_digitChar)
  next
    case False
    have d: "k div 10 < 10" "k mod 10 < 10" using k by simp_all
    have e: "natToString k = [digitChar (k div 10), digitChar (k mod 10)]"
      using False d by (subst natToString.simps) simp
    then have p: "padStart 2 (digitChar 0) (intToString m) = natToString k"
      by (simp add: i padStart_def del: natToString.simps)
    have "length (padStart 2 (digitChar 0) (intToString m)) = 2"
      by (simp add: p e del: natToString.simps)
    moreover have "parseInt10 (padStart 2 (digitChar 0) (intToString m)) = Some m"
      using parseInt10_intToString[of m] p by (simp only: i)
    ultimately show ?thesis by simp
  qed
qed

lemma intToString_nonempty: "intToString i \<noteq> []"
  using natToString_props[of "nat i"] by (simp add: intToString_def js_dash del: natToString.simps)

lemma dateOfString_fields:
  assumes "y \<noteq> []" "length m = 2" "length d = 2"
  shows "dateOfString (y @ [0x2D] @ m @ [0x2D] @ d)
           = (case (parseInt10 y, parseInt10 m, parseInt10 d) of
                (Some yy, Some mm, Some dd) \<Rightarrow> Some (MakeDay yy (mm - 1) dd)
              | _ \<Rightarrow> None)"
proof -
  let ?s = "y @ [0x2D] @ m @ [0x2D] @ d"
  have n: "length ?s = length y + 6" using assms by simp
  have "0 < length y" using assms(1) by simp
  then have a: "\<not> length ?s < 7" using n by simp
  have b: "?s ! (length ?s - 6) = 0x2D"
    using assms by (simp add: nth_append)
  have c: "?s ! (length ?s - 3) = 0x2D"
    using assms by (simp add: nth_append)
  have t1: "take (length ?s - 6) ?s = y" using assms by simp
  have t2: "take 2 (drop (length ?s - 5) ?s) = m" using assms by simp
  have t3: "drop (length ?s - 2) ?s = d" using assms by simp
  show ?thesis
    unfolding dateOfString_def Let_def t1 t2 t3 using a b c by simp
qed

lemma formatDateToString_Some:
  "formatDateToString tza (Some t)
     = intToString (YearFromDay (Day (LocalTime tza t))) @ [0x2D]
       @ padStart 2 (digitChar 0) (intToString (MonthFromDay (Day (LocalTime tza t)) + 1)) @ [0x2D]
       @ padStart 2 (digitChar 0) (intToString (DateFromDay (Day (LocalTime tza t))))"
  by (simp add: formatDateToString_def getFullYear_def getMonth_def getDate_def plusN_def
      numToString_def js_dash Let_def)

lemma dateOfString_format:
  "dateOfString (formatDateToString tza (Some t)) = Some (Day (LocalTime tza t))"
proof -
  let ?d = "Day (LocalTime tza t)"
  have m: "0 \<le> MonthFromDay ?d + 1" "MonthFromDay ?d + 1 < 100"
    using MonthFromDay_range[of ?d] by simp_all
  have d: "0 \<le> DateFromDay ?d" "DateFromDay ?d < 100"
    using DateFromDay_range[of ?d] by simp_all
  note M = two_digits[OF m]
  note D = two_digits[OF d]
  have "dateOfString (formatDateToString tza (Some t))
      = Some (MakeDay (YearFromDay ?d) (MonthFromDay ?d + 1 - 1) (DateFromDay ?d))"
    unfolding formatDateToString_Some
    using M D by (subst dateOfString_fields) (simp_all add: intToString_nonempty parseInt10_intToString)
  also have "\<dots> = Some ?d"
    using MakeDay_roundtrip[of ?d 0] by simp
  finally show ?thesis .
qed

lemma formatDateToString_None: "formatDateToString tza None = js ''NaN-NaN-NaN''"
  by (simp add: formatDateToString_def getFullYear_def getMonth_def getDate_def plusN_def
      numToString_def padStart_def js_def Let_def)

lemma dateOfString_NaN: "dateOfString (js ''NaN-NaN-NaN'') = None"
  by (simp add: dateOfString_def js_def)

lemma WeekDay_range: "0 \<le> WeekDay d \<and> WeekDay d < 7"
  by (simp add: WeekDay_def)

lemma daysUntilTarget:
  assumes "0 \<le> w" "w \<le> 6" "0 \<le> g" "g < 7"
  shows "jsRem (w - g + 7) 7 = (w - g) mod 7"
proof -
  have "0 < w - g + 7" using assms by simp
  then show ?thesis by (simp add: jsRem_def)
qed

lemma WeekDay_target:
  assumes "0 \<le> w" "w \<le> 6"
  shows "WeekDay (today + (w - WeekDay today) mod 7 + 7 * k) = w"
proof -
  have "(today + (w - WeekDay today) mod 7 + 7 * k + 4) mod 7
      = (today + 4 + (w - WeekDay today) mod 7 + 7 * k) mod 7"
    by (simp add: algebra_simps)
  also have "\<dots> = (today + 4 + (w - WeekDay today) mod 7) mod 7"
    by (rule mod_mult_self2)
  also have "\<dots> = ((today + 4) mod 7 + (w - (today + 4) mod 7) mod 7) mod 7"
    by (simp add: WeekDay_def mod_simps)
  also have "\<dots> = w mod 7"
    by (simp add: mod_simps)
  finally show ?thesis using assms by (simp add: WeekDay_def)
qed

lemma generateFutureDates_dates:
  assumes "map_of dayNameMapping W = Some w"
    and "Day (LocalTime tza now2) = Day (LocalTime tza now1)"
    and "- maxTime \<le> now2"
  shows "generateFutureDates tza now1 now2 W N
           = ([], map (\<lambda>i. formatDateToString tza
                            (TimeClip (now2 + ((w - WeekDay (Day (LocalTime tza now1))) mod 7
                                               + 7 * int i) * msPerDay)))
                    [0..<N])"
proof -
  let ?g = "WeekDay (Day (LocalTime tza now1))"
  let ?off = "(w - ?g) mod 7"
  have w: "0 \<le> w" "w \<le> 6" using dayNameMapping_ordinal[OF assms(1)] by simp_all
  have g: "0 \<le> ?g" "?g < 7" using WeekDay_range by simp_all
  have off: "jsRem (w - ?g + 7) 7 = ?off" using daysUntilTarget[OF w g] .
  have o: "0 \<le> ?off" by simp
  have m: "0 < msPerDay" by (simp add: msPerDay_def)
  have lo: "- maxTime \<le> now2 + ?off * msPerDay"
  proof -
    have "0 \<le> ?off * msPerDay" using o m by simp
    then show ?thesis using assms(3) by linarith
  qed
  have start: "setDate tza (Some now2) (plusN (getDate tza (Some now1)) (Some ?off))
      = TimeClip (now2 + ?off * msPerDay)"
    using assms(2) by (rule setDate_same_day)
  have "generateFutureDates tza now1 now2 W N
      = ([], pushDates tza N (TimeClip (now2 + ?off * msPerDay)) [])"
    using assms(1) start
    by (simp add: generateFutureDates_def hasOwnProperty_def Let_def getDay_def off plusN_def
        getDate_def)
  also have "\<dots> = ([], map (\<lambda>i. formatDateToString tza
        (TimeClip (now2 + ?off * msPerDay + 7 * int i * msPerDay))) [0..<N])"
    by (simp add: pushDates_eq advance_funpow[OF lo])
  finally show ?thesis by (simp add: algebra_simps)
qed


section \<open>Evaluation of dates\<close>

lemma getters_Some:
  "getFullYear tza (Some t) = Some (YearFromDay (Day (LocalTime tza t)))"
  "getMonth tza (Some t) = Some (MonthFromDay (Day (LocalTime tza t)))"
  "getDate tza (Some t) = Some (DateFromDay (Day (LocalTime tza t)))"
  "getDay tza (Some t) = Some (WeekDay (Day (LocalTime tza t)))"
  by (simp_all add: getFullYear_def getMonth_def getDate_def getDay_def)

lemma setDate_Some:
  "setDate tza (Some tv) (Some n)
     = TimeClip (UTC tza (MakeDay (YearFromDay (Day (LocalTime tza tv)))
                            (MonthFromDay (Day (LocalTime tza tv))) n * msPerDay
                          + TimeWithinDay (LocalTime tza tv)))"
  by (simp add: setDate_def Let_def)

lemmas calendar_eval =
  LocalTime_def UTC_def Day_def TimeWithinDay_def TimeClip_def msPerDay_def maxTime_def
  YearFromDay_def DayFromYear_def DaysInYear_def InLeapYear_def DayWithinYear_def
  MonthFromDay_def DateFromDay_def WeekDay_def monthStart_def MakeDay_def Let_def

lemmas date_eval =
  getters_Some setDate_Some plusN_def jsRem_def
  numToString_def intToString_def padStart_def digitChar_def js_def formatDateToString_def

lemma format_examples:
  "formatDateToString (- 10800000) (Some 1793880000001) = js ''2026-11-05''"
  "formatDateToString (- 10800000) (Some 1795694400001) = js ''2026-11-26''"
  by (simp_all add: calendar_eval date_eval)

lemma Thursday: "map_of dayNameMapping (js ''Quinta-feira'') = Some 4"
  by (simp add: dayNameMapping_def js_inj)


section \<open>The recurrence calculator: results\<close>

text \<open>
  Claim C1, as amended. Let the weekday \<open>W\<close> be in the table with ordinal \<open>w\<close>, let both
  clock readings of the call fall on the local calendar day \<open>today\<close>, in a time zone of
  constant offset, and let every date the loop computes be within the range of a \<open>Date\<close>.
  Then \<open>generateFutureDates\<close> logs nothing and returns exactly \<open>N\<close> strings; the string
  at index \<open>i\<close> is the rendering of the date object of the local day \<open>first + 7 * i\<close>,
  it reads back as that calendar day, and the day falls on weekday \<open>w\<close>. The first day is
  \<open>today\<close> plus \<open>(w - WeekDay today) mod 7\<close> days: on or after \<open>today\<close>, less than a
  week after it, and equal to \<open>today\<close> when the weekday of \<open>today\<close> is \<open>w\<close>.
\<close>

theorem generateFutureDates_recognized:
  fixes tza now1 now2 today w :: int and N :: nat
  assumes "map_of dayNameMapping W = Some w"
    and "Day (LocalTime tza now1) = today"
    and "Day (LocalTime tza now2) = today"
    and "- maxTime \<le> now2"
    and "\<forall>i<N. now2 + ((w - WeekDay today) mod 7 + 7 * int i) * msPerDay \<le> maxTime"
  defines "first \<equiv> today + (w - WeekDay today) mod 7"
  shows "fst (generateFutureDates tza now1 now2 W N) = []
       \<and> length (snd (generateFutureDates tza now1 now2 W N)) = N
       \<and> (\<forall>i<N. snd (generateFutureDates tza now1 now2 W N) ! i
                    = formatDateToString tza (Some (now2 + (first - today + 7 * int i) * msPerDay))
                \<and> dateOfString (snd (generateFutureDates tza now1 now2 W N) ! i)
                    = Some (first + 7 * int i)
                \<and> WeekDay (first + 7 * int i) = w)
       \<and> today \<le> first \<and> first < today + 7
       \<and> (WeekDay today = w \<longrightarrow> first = today)"
proof -
  let ?off = "(w - WeekDay today) mod 7"
  let ?t = "\<lambda>i. now2 + (?off + 7 * int i) * msPerDay"
  have w: "0 \<le> w" "w \<le> 6" using dayNameMapping_ordinal[OF assms(1)] by simp_all
  have m: "0 < msPerDay" by (simp add: msPerDay_def)
  have res: "generateFutureDates tza now1 now2 W N
      = ([], map (\<lambda>i. formatDateToString tza (TimeClip (?t i))) [0..<N])"
    using generateFutureDates_dates[OF assms(1), of tza now2 now1 N] assms(2,3,4) by simp
  have valid: "TimeClip (?t i) = Some (?t i)" if "i < N" for i
  proof -
    have "0 \<le> (?off + 7 * int i) * msPerDay" using m by simp
    then have "- maxTime \<le> ?t i" using assms(4) by linarith
    moreover have "?t i \<le> maxTime" using assms(5) that by simp
    ultimately show ?thesis by (simp add: TimeClip_def)
  qed
  have day: "Day (LocalTime tza (?t i)) = first + 7 * int i" for i
    using assms(3) Day_add[of "now2 + tza" "?off + 7 * int i"]
    by (simp add: LocalTime_def first_def algebra_simps)
  have nth: "snd (generateFutureDates tza now1 now2 W N) ! i
      = formatDateToString tza (Some (?t i))" if "i < N" for i
    using that valid[OF that] by (simp add: res)
  have each: "snd (generateFutureDates tza now1 now2 W N) ! i
        = formatDateToString tza (Some (now2 + (first - today + 7 * int i) * msPerDay))
      \<and> dateOfString (snd (generateFutureDates tza now1 now2 W N) ! i) = Some (first + 7 * int i)
      \<and> WeekDay (first + 7 * int i) = w" if "i < N" for i
    using nth[OF that] day[of i] WeekDay_target[OF w, of today "int i"]
    by (simp add: dateOfString_format first_def)
  have b: "today \<le> first" "first < today + 7" by (simp_all add: first_def)
  have z: "WeekDay today = w \<longrightarrow> first = today" by (simp add: first_def)
  have f: "fst (generateFutureDates tza now1 now2 W N) = []" by (simp add: res)
  have l: "length (snd (generateFutureDates tza now1 now2 W N)) = N" by (simp add: res)
  show ?thesis using f l each b z by blast
qed

text \<open>
  Without the bound on the dates the statement fails. Whatever the count, the array has
  that many strings, but a date past the range of a \<open>Date\<close> is invalid and is rendered
  as \<open>NaN-NaN-NaN\<close>, which is no calendar date.
\<close>

lemma generateFutureDates_beyond_range:
  assumes "map_of dayNameMapping W = Some w"
    and "Day (LocalTime tza now) = today"
    and "- maxTime \<le> now"
    and "i < N"
    and "maxTime < now + ((w - WeekDay today) mod 7 + 7 * int i) * msPerDay"
  shows "length (snd (generateFutureDates tza now now W N)) = N"
    and "snd (generateFutureDates tza now now W N) ! i = js ''NaN-NaN-NaN''"
proof -
  have res: "generateFutureDates tza now now W N
      = ([], map (\<lambda>i. formatDateToString tza
                       (TimeClip (now + ((w - WeekDay today) mod 7 + 7 * int i) * msPerDay)))
               [0..<N])"
    using generateFutureDates_dates[OF assms(1) _ assms(3), of tza now N] by (simp add: assms(2))
  show "length (snd (generateFutureDates tza now now W N)) = N"
    by (simp add: res)
  have "TimeClip (now + ((w - WeekDay today) mod 7 + 7 * int i) * msPerDay) = None"
    using assms(5) by (simp add: TimeClip_def)
  then show "snd (generateFutureDates tza now now W N) ! i = js ''NaN-NaN-NaN''"
    using assms(4) by (simp add: res formatDateToString_None)
qed

text \<open>
  From noon UTC of 2026-11-03, in the zone three hours behind UTC, the last of 14300000
  Thursdays is past the range.
\<close>

theorem generateFutureDates_large_count_counterexample:
  "length (snd (generateFutureDates (- 10800000) 1793707200000 1793707200000
                  (js ''Quinta-feira'') 14300000)) = 14300000
   \<and> snd (generateFutureDates (- 10800000) 1793707200000 1793707200000
            (js ''Quinta-feira'') 14300000) ! 14299999 = js ''NaN-NaN-NaN''
   \<and> dateOfString (js ''NaN-NaN-NaN'') = None"
proof -
  have d: "Day (LocalTime (- 10800000) 1793707200000) = 20760"
    by (simp add: Day_def LocalTime_def msPerDay_def)
  have v: "- maxTime \<le> (1793707200000 :: int)"
    by (simp add: maxTime_def)
  have i: "(14299999 :: nat) < 14300000" by simp
  have b: "maxTime < 1793707200000 + ((4 - WeekDay 20760) mod 7 + 7 * int 14299999) * msPerDay"
    by (simp add: maxTime_def msPerDay_def WeekDay_def)
  show ?thesis
    using generateFutureDates_beyond_range[OF Thursday d v i b] dateOfString_NaN by simp
qed

text \<open>
  On Tuesday 2026-11-03, at 09:00 local time three hours behind UTC, with the second clock
  reading a millisecond after the first: four Thursdays from 2026-11-05 to 2026-11-26.
\<close>

theorem generateFutureDates_recognized_witness:
  "map_of dayNameMapping (js ''Quinta-feira'') = Some 4
   \<and> Day (LocalTime (- 10800000) 1793707200000) = 20760
   \<and> Day (LocalTime (- 10800000) 1793707200001) = 20760
   \<and> - maxTime \<le> 1793707200001
   \<and> WeekDay 20760 = 2
   \<and> fst (generateFutureDates (- 10800000) 1793707200000 1793707200001 (js ''Quinta-feira'') 4) = []
   \<and> length (snd (generateFutureDates (- 10800000) 1793707200000 1793707200001
                     (js ''Quinta-feira'') 4)) = 4
   \<and> snd (generateFutureDates (- 10800000) 1793707200000 1793707200001 (js ''Quinta-feira'') 4) ! 0
       = js ''2026-11-05''
   \<and> dateOfString (js ''2026-11-05'') = Some 20762
   \<and> WeekDay 20762 = 4
   \<and> snd (generateFutureDates (- 10800000) 1793707200000 1793707200001 (js ''Quinta-feira'') 4) ! 3
       = js ''2026-11-26''
   \<and> dateOfString (js ''2026-11-26'') = Some 20783
   \<and> WeekDay 20783 = 4"
proof -
  let ?G = "generateFutureDates (- 10800000) 1793707200000 1793707200001 (js ''Quinta-feira'') 4"
  have d1: "Day (LocalTime (- 10800000) 1793707200000) = 20760"
    and d2: "Day (LocalTime (- 10800000) 1793707200001) = 20760"
    by (simp_all add: Day_def LocalTime_def msPerDay_def)
  have v: "- maxTime \<le> (1793707200001 :: int)"
    by (simp add: maxTime_def)
  have g: "WeekDay 20760 = 2" by (simp add: WeekDay_def)
  have r: "\<forall>i<4::nat. 1793707200001 + ((4 - WeekDay 20760) mod 7 + 7 * int i) * msPerDay \<le> maxTime"
    by (simp add: g msPerDay_def maxTime_def)
  note T = generateFutureDates_recognized[OF Thursday d1 d2 v r, unfolded g]
  have f: "fst ?G = []" and l: "length (snd ?G) = 4" using T by simp_all
  note each = T[THEN conjunct2, THEN conjunct2, THEN conjunct1, rule_format]
  have e0: "snd ?G ! 0 = js ''2026-11-05''" "dateOfString (js ''2026-11-05'') = Some 20762"
    "WeekDay 20762 = 4"
    using each[of 0] by (auto simp add: msPerDay_def format_examples)
  have e3: "snd ?G ! 3 = js ''2026-11-26''" "dateOfString (js ''2026-11-26'') = Some 20783"
    "WeekDay 20783 = 4"
    using each[of 3] by (auto simp add: msPerDay_def format_examples)
  show ?thesis
    using Thursday d1 d2 v g f l e0 e3 by simp
qed

text \<open>
  The two clock readings on different days are outside the statement above. The day of
  the month of the first reading is written into the date object of the second: with the
  first reading in the last millisecond of Monday 2026-11-30 and the second at the start
  of 2026-12-01, the day 33 of December is 2027-01-02, a Saturday.
\<close>

lemma generateFutureDates_month_end_midnight:
  "generateFutureDates 0 1796083199999 1796083200000 (js ''Quinta-feira'') 2
     = ([], [js ''2027-01-02'', js ''2027-01-09''])
   \<and> Day (LocalTime 0 1796083199999) = 20787
   \<and> Day (LocalTime 0 1796083200000) = 20788
   \<and> dateOfString (js ''2027-01-02'') = Some 20820
   \<and> WeekDay 20820 = 6"
proof -
  have f: "formatDateToString 0 (Some 1798848000000) = js ''2027-01-02''"
    "formatDateToString 0 (Some 1799452800000) = js ''2027-01-09''"
    by (simp_all add: calendar_eval date_eval)
  have s: "setDate 0 (Some 1796083200000) (Some 33) = Some 1798848000000"
    "setDate 0 (Some 1798848000000) (Some 9) = Some 1799452800000"
    by (simp_all add: calendar_eval date_eval)
  have g: "getDate 0 (Some 1796083199999) = Some 30"
    "getDay 0 (Some 1796083199999) = Some 1"
    "getDate 0 (Some 1798848000000) = Some 2"
    by (simp_all add: calendar_eval date_eval)
  have r: "jsRem 10 7 = 3" by (simp add: jsRem_def)
  have p: "pushDates 0 (Suc (Suc 0)) (Some 1798848000000) []
      = [js ''2027-01-02'', js ''2027-01-09'']"
    by (simp add: f s g plusN_def)
  have "generateFutureDates 0 1796083199999 1796083200000 (js ''Quinta-feira'') (Suc (Suc 0))
      = ([], pushDates 0 (Suc (Suc 0)) (Some 1798848000000) [])"
    unfolding generateFutureDates_def hasOwnProperty_def Thursday Let_def g
    by (simp add: r s plusN_def del: pushDates.simps)
  then have G: "generateFutureDates 0 1796083199999 1796083200000 (js ''Quinta-feira'') 2
      = ([], [js ''2027-01-02'', js ''2027-01-09''])"
    by (simp only: p numeral_2_eq_2)
  have d: "dateOfString (js ''2027-01-02'') = Some 20820"
    using dateOfString_format[of 0 1798848000000]
    by (simp add: f LocalTime_def Day_def msPerDay_def)
  have "Day (LocalTime 0 1796083199999) = 20787" "Day (LocalTime 0 1796083200000) = 20788"
    "WeekDay 20820 = 6"
    by (simp_all add: LocalTime_def Day_def msPerDay_def WeekDay_def)
  then show ?thesis using G d by simp
qed

text \<open>
  Claim C7. For a string that is not a key of the weekday table, \<open>generateFutureDates\<close>
  returns the empty array, whatever the count, the clock and the time zone, and its only
  effect is one call of \<open>console.error\<close>; no path of the function throws.
\<close>

theorem generateFutureDates_unrecognized:
  assumes "targetDayName \<notin> set (map fst dayNameMapping)"
  shows "generateFutureDates tza now1 now2 targetDayName count
           = ([ErrorInvalidDayName targetDayName], [])
         \<and> levelOf (ErrorInvalidDayName targetDayName) = LevelError"
proof -
  have "map_of dayNameMapping targetDayName = None"
    using assms by (simp add: map_of_eq_None_iff)
  then show ?thesis
    by (simp add: generateFutureDates_def hasOwnProperty_def)
qed

theorem generateFutureDates_unrecognized_witness:
  "js ''quinta-feira'' \<notin> set (map fst dayNameMapping)
   \<and> generateFutureDates (- 10800000) 1793707200000 1793707200001 (js ''quinta-feira'') 4
       = ([ErrorInvalidDayName (js ''quinta-feira'')], [])"
proof -
  have h: "js ''quinta-feira'' \<notin> set (map fst dayNameMapping)"
    by (simp add: dayNameMapping_def js_inj)
  show ?thesis
    using h generateFutureDates_unrecognized[OF h, of "- 10800000" 1793707200000 1793707200001 4]
    by simp
qed


section \<open>The trip normalizer: properties of the parts\<close>

lemma bindE_Inr_iff: "bindE m f = Inr r \<longleftrightarrow> (\<exists>v. m = Inr v \<and> f v = Inr r)"
  by (cases m) (simp_all add: bindE_def)

lemma bindE_Inr [simp]: "bindE (Inr v) f = f v"
  by (simp add: bindE_def)

lemma bindE_Inl [simp]: "bindE (Inl e) f = Inl e"
  by (simp add: bindE_def)

lemma strictEq_Str [simp]: "strictEq v (Str s) \<longleftrightarrow> v = Str s"
  by (cases v) simp_all

lemma getProp_Str_Obj: "getProp v k = Inr (Str s) \<Longrightarrow> \<exists>ps. v = Obj ps"
  by (cases v) simp_all

lemma getProp_Arr_Obj: "getProp v k = Inr (Arr xs) \<Longrightarrow> \<exists>ps. v = Obj ps"
  by (cases v) simp_all

lemma entryOfType_truthy: "entryOfType name pt \<Longrightarrow> truthy pt"
  by (auto simp: entryOfType_def dest: getProp_Str_Obj)

lemma getProp_propOf: "v \<noteq> Undefined \<Longrightarrow> v \<noteq> Null \<Longrightarrow> getProp v (js name) = Inr (propOf name v)"
  by (cases v) (simp_all add: propOf_def split: option.splits)

lemma hasType_eq:
  "hasType name pt = (if pt = Undefined \<or> pt = Null then Inl TypeError else Inr (entryOfType name pt))"
  by (cases pt) (auto simp: hasType_def entryOfType_def split: option.splits)

lemma isFreePass_eq:
  "isFreePass pf pt = (if pt = Undefined \<or> pt = Null then Inl TypeError else Inr (freePassEntry pf pt))"
  by (cases pt) (auto simp: isFreePass_def freePassEntry_def entryOfType_def propOf_def split: option.splits)

lemma find_js_Inr:
  assumes "\<And>x. p x = (if x = Undefined \<or> x = Null then Inl TypeError else Inr (q x))"
    and "find_js p xs = Inr v"
  shows "v = (case List.find q xs of None \<Rightarrow> Undefined | Some e \<Rightarrow> e)"
  using assms(2)
proof (induction xs)
  case Nil
  then show ?case by simp
next
  case (Cons x xs)
  then show ?case by (auto simp: assms(1) split: if_splits)
qed

lemma find_Some_truthy:
  "List.find (entryOfType name) xs = Some e \<Longrightarrow> truthy e"
  by (auto simp: find_Some_iff intro: entryOfType_truthy)


lemma find_entry_getProp:
  "List.find (entryOfType name) xs = Some e \<Longrightarrow> getProp e (js k) = Inr (propOf k e)"
  by (auto simp: find_Some_iff entryOfType_def dest!: getProp_Str_Obj intro!: getProp_propOf)

lemma find_freePass_truthy:
  "List.find (freePassEntry pf) xs = Some e \<Longrightarrow> truthy e \<and> getProp e (js k) = Inr (propOf k e)"
  by (auto simp: find_Some_iff freePassEntry_def entryOfType_def dest!: getProp_Str_Obj intro!: getProp_propOf)

lemma passengerTiers_Inr:
  assumes "passengerTiers pf pts p0 = Inr (gp, fp, dy, dyh)"
  shows "gp = generalPriceOf pf pts p0"
    and "fp = map_option (\<lambda>e. \<lparr>DiscountInfo.price = Fin 0, availability = propOf ''availability'' e,
                                type = js ''Gratuidade (Idoso/PCD)''\<rparr>)
               (List.find (freePassEntry pf) pts)"
    and "dy = map_option (\<lambda>e. \<lparr>DiscountInfo.price = pf (propOf ''total'' e),
                                availability = propOf ''availability'' e,
                                type = js ''Jovem Baixa Renda 100%''\<rparr>)
               (List.find (entryOfType ''disadvantaged_youth'') pts)"
    and "dyh = map_option (\<lambda>e. \<lparr>DiscountInfo.price = pf (propOf ''total'' e),
                                availability = propOf ''availability'' e,
                                type = js ''Jovem Baixa Renda 50%''\<rparr>)
               (List.find (entryOfType ''disadvantaged_youth_half'') pts)"
proof -
  from assms obtain g f y h where
    g: "find_js (hasType ''general'') pts = Inr g"
    and gp: "(if truthy g
            then bindE (getProp g (js ''total'')) (\<lambda>total.
                   Inr (if total \<noteq> Undefined then Num (pf total) else p0))
            else Inr p0) = Inr gp"
    and f: "find_js (isFreePass pf) pts = Inr f"
    and fp: "(if truthy f
            then bindE (getProp f (js ''availability'')) (\<lambda>a.
                   Inr (Some \<lparr>DiscountInfo.price = Fin 0, availability = a,
                              type = js ''Gratuidade (Idoso/PCD)''\<rparr>))
            else Inr None) = Inr fp"
    and y: "find_js (hasType ''disadvantaged_youth'') pts = Inr y"
    and dy: "(if truthy y
            then bindE (getProp y (js ''total'')) (\<lambda>total.
                 bindE (getProp y (js ''availability'')) (\<lambda>a.
                   Inr (Some \<lparr>DiscountInfo.price = pf total, availability = a,
                              type = js ''Jovem Baixa Renda 100%''\<rparr>)))
            else Inr None) = Inr dy"
    and h: "find_js (hasType ''disadvantaged_youth_half'') pts = Inr h"
    and dyh: "(if truthy h
            then bindE (getProp h (js ''total'')) (\<lambda>total.
                 bindE (getProp h (js ''availability'')) (\<lambda>a.
                   Inr (Some \<lparr>DiscountInfo.price = pf total, availability = a,
                              type = js ''Jovem Baixa Renda 50%''\<rparr>)))
            else Inr None) = Inr dyh"
    unfolding passengerTiers_def bindE_Inr_iff by blast
  note g' = find_js_Inr[OF hasType_eq g]
  note f' = find_js_Inr[OF isFreePass_eq f]
  note y' = find_js_Inr[OF hasType_eq y]
  note h' = find_js_Inr[OF hasType_eq h]
  show "gp = generalPriceOf pf pts p0"
    using gp g' find_Some_truthy[of "''general''" pts] find_entry_getProp[of "''general''" pts _ "''total''"]
    by (auto simp: generalPriceOf_def split: option.splits if_splits)
  show "fp = map_option (\<lambda>e. \<lparr>DiscountInfo.price = Fin 0, availability = propOf ''availability'' e,
                                type = js ''Gratuidade (Idoso/PCD)''\<rparr>)
               (List.find (freePassEntry pf) pts)"
    using fp f' find_freePass_truthy[of pf pts _ "''availability''"]
    by (auto split: option.splits if_splits)
  show "dy = map_option (\<lambda>e. \<lparr>DiscountInfo.price = pf (propOf ''total'' e),
                                availability = propOf ''availability'' e,
                                type = js ''Jovem Baixa Renda 100%''\<rparr>)
               (List.find (entryOfType ''disadvantaged_youth'') pts)"
    using dy y' find_Some_truthy[of "''disadvantaged_youth''" pts]
      find_entry_getProp[of "''disadvantaged_youth''" pts _ "''total''"]
      find_entry_getProp[of "''disadvantaged_youth''" pts _ "''availability''"]
    by (auto split: option.splits if_splits)
  show "dyh = map_option (\<lambda>e. \<lparr>DiscountInfo.price = pf (propOf ''total'' e),
                                availability = propOf ''availability'' e,
                                type = js ''Jovem Baixa Renda 50%''\<rparr>)
               (List.find (entryOfType ''disadvantaged_youth_half'') pts)"
    using dyh h' find_Some_truthy[of "''disadvantaged_youth_half''" pts]
      find_entry_getProp[of "''disadvantaged_youth_half''" pts _ "''total''"]
      find_entry_getProp[of "''disadvantaged_youth_half''" pts _ "''availability''"]
    by (auto split: option.splits if_splits)
qed

lemma passengerTypes_eq:
  "getProp t (js ''passenger_types'') = Inr p \<Longrightarrow>
     passengerTypes t = (if isArray p then elements p else [])"
  by (cases p) (simp_all add: passengerTypes_def)

lemma generalPriceOf_Nil [simp]: "generalPriceOf pf [] p0 = p0"
  by (simp add: generalPriceOf_def)

lemma getProp_Inr_propOf: "getProp v (js k) = Inr x \<Longrightarrow> propOf k v = x"
  by (simp add: propOf_def)

lemma canonicalTrip_Inr:
  assumes "canonicalTrip pf d t = Inr c"
  shows "c = \<lparr>date = d,
              serviceType = propOf ''service'' t,
              departureTimestamp = propOf ''departure'' t,
              arrivalTimestamp = propOf ''arrival'' t,
              price = generalPriceOf pf (passengerTypes t) (propOf ''total'' (propOf ''pricing'' t)),
              freePassInfo =
                map_option (\<lambda>e. \<lparr>DiscountInfo.price = Fin 0,
                                   availability = propOf ''availability'' e,
                                   type = js ''Gratuidade (Idoso/PCD)''\<rparr>)
                  (List.find (freePassEntry pf) (passengerTypes t)),
              disadvantagedYouthInfo =
                map_option (\<lambda>e. \<lparr>DiscountInfo.price = pf (propOf ''total'' e),
                                   availability = propOf ''availability'' e,
                                   type = js ''Jovem Baixa Renda 100%''\<rparr>)
                  (List.find (entryOfType ''disadvantaged_youth'') (passengerTypes t)),
              disadvantagedYouthHalfInfo =
                map_option (\<lambda>e. \<lparr>DiscountInfo.price = pf (propOf ''total'' e),
                                   availability = propOf ''availability'' e,
                                   type = js ''Jovem Baixa Renda 50%''\<rparr>)
                  (List.find (entryOfType ''disadvantaged_youth_half'') (passengerTypes t))\<rparr>"
proof -
  from assms obtain pricing p0 pts gp fp dy dyh service departure arrival where
    a: "getProp t (js ''pricing'') = Inr pricing"
    and b: "getProp pricing (js ''total'') = Inr p0"
    and p: "getProp t (js ''passenger_types'') = Inr pts"
    and tiers: "(if truthy pts \<and> isArray pts
            then passengerTiers pf (elements pts) p0
            else Inr (p0, None, None, None)) = Inr (gp, fp, dy, dyh)"
    and s: "getProp t (js ''service'') = Inr service"
    and dep: "getProp t (js ''departure'') = Inr departure"
    and arr: "getProp t (js ''arrival'') = Inr arrival"
    and c: "c = \<lparr>date = d, serviceType = service, departureTimestamp = departure,
            arrivalTimestamp = arrival, price = gp, freePassInfo = fp,
            disadvantagedYouthInfo = dy, disadvantagedYouthHalfInfo = dyh\<rparr>"
    unfolding canonicalTrip_def by (auto simp: bindE_Inr_iff split: prod.splits)
  have tr: "isArray pts \<Longrightarrow> truthy pts" by (cases pts) simp_all
  show ?thesis
  proof (cases "isArray pts")
    case True
    then have "passengerTiers pf (passengerTypes t) p0 = Inr (gp, fp, dy, dyh)"
      using tiers tr passengerTypes_eq[OF p] by simp
    from passengerTiers_Inr[OF this] show ?thesis
      using c getProp_Inr_propOf[OF a] getProp_Inr_propOf[OF b] getProp_Inr_propOf[OF s]
        getProp_Inr_propOf[OF dep] getProp_Inr_propOf[OF arr]
      by simp
  next
    case False
    then have "passengerTypes t = []" "gp = p0" "fp = None" "dy = None" "dyh = None"
      using tiers passengerTypes_eq[OF p] by simp_all
    then show ?thesis
      using c getProp_Inr_propOf[OF a] getProp_Inr_propOf[OF b] getProp_Inr_propOf[OF s]
        getProp_Inr_propOf[OF dep] getProp_Inr_propOf[OF arr]
      by simp
  qed
qed

lemma tripCallback_Inr:
  assumes "tripCallback pf d t acc = Inr acc'"
  shows "(isConventional t \<and> (\<exists>c. canonicalTrip pf d t = Inr c \<and> acc' = acc @ [c]))
       \<or> (\<not> isConventional t \<and> acc' = acc)"
  using assms
  by (auto simp: tripCallback_def isConventional_def bindE_Inr_iff split: if_splits)

lemma forEach_tripCallback_Inr:
  "forEach (tripCallback pf d) ts acc = Inr out \<Longrightarrow>
     \<exists>cs. out = acc @ cs
        \<and> list_all2 (\<lambda>t c. canonicalTrip pf d t = Inr c) (filter isConventional ts) cs"
proof (induction ts arbitrary: acc)
  case Nil
  then show ?case by simp
next
  case (Cons t ts)
  from Cons.prems obtain acc' where
    1: "tripCallback pf d t acc = Inr acc'" and 2: "forEach (tripCallback pf d) ts acc' = Inr out"
    by (auto split: sum.splits)
  from Cons.IH[OF 2] obtain cs where
    cs: "out = acc' @ cs" "list_all2 (\<lambda>t c. canonicalTrip pf d t = Inr c) (filter isConventional ts) cs"
    by blast
  from tripCallback_Inr[OF 1] show ?case
  proof
    assume "isConventional t \<and> (\<exists>c. canonicalTrip pf d t = Inr c \<and> acc' = acc @ [c])"
    then obtain c where "isConventional t" "canonicalTrip pf d t = Inr c" "acc' = acc @ [c]"
      by blast
    then show ?thesis using cs by (intro exI[of _ "c # cs"]) simp
  next
    assume "\<not> isConventional t \<and> acc' = acc"
    then show ?thesis using cs by (intro exI[of _ cs]) simp
  qed
qed

lemma processAndFilterTrips_Inr:
  assumes "processAndFilterTrips pf jsonData = (msgs, Inr out)"
  shows "list_all2 (\<lambda>t c. canonicalTrip pf (propOf ''departs'' jsonData) t = Inr c)
           (filter isConventional (tripsOf jsonData)) out"
proof (cases "\<not> truthy jsonData \<or> typeof jsonData \<noteq> js ''object''")
  case True
  then have "out = []" using assms by (auto simp: processAndFilterTrips_def)
  moreover have "tripsOf jsonData = []"
    using True by (cases jsonData) (auto simp: tripsOf_def propOf_def js_inj)
  ultimately show ?thesis by simp
next
  case False
  then have nn: "jsonData \<noteq> Undefined" "jsonData \<noteq> Null" by auto
  have t: "getProp jsonData (js ''trips'') = Inr (propOf ''trips'' jsonData)"
    and d: "getProp jsonData (js ''departs'') = Inr (propOf ''departs'' jsonData)"
    using nn by (simp_all add: getProp_propOf)
  show ?thesis
  proof (cases "isArray (propOf ''trips'' jsonData)")
    case True
    then have "forEach (tripCallback pf (propOf ''departs'' jsonData)) (tripsOf jsonData) [] = Inr out"
      using assms False t d
      by (cases "propOf ''trips'' jsonData") (auto simp: processAndFilterTrips_def tripsOf_def)
    from forEach_tripCallback_Inr[OF this] show ?thesis by simp
  next
    case F: False
    then have "out = []" using assms False t d by (auto simp: processAndFilterTrips_def)
    moreover have "tripsOf jsonData = []"
      using F by (cases "propOf ''trips'' jsonData") (simp_all add: tripsOf_def)
    ultimately show ?thesis by simp
  qed
qed

lemma normalized_trips:
  assumes "processAndFilterTrips pf jsonData = (msgs, Inr out)"
    and "\<And>t c. t \<in> set (tripsOf jsonData) \<Longrightarrow> isConventional t \<Longrightarrow>
           canonicalTrip pf (propOf ''departs'' jsonData) t = Inr c \<Longrightarrow> R t c"
  shows "list_all2 R (filter isConventional (tripsOf jsonData)) out"
  using processAndFilterTrips_Inr[OF assms(1)]
  by (rule list.rel_mono_strong) (auto intro: assms(2))

lemma error_eq: "(e::error) = TypeError"
  by (cases e) simp

lemma forEach_Inl:
  assumes "x \<in> set xs" and "\<And>s. f x s = Inl TypeError"
  shows "forEach f xs s = Inl TypeError"
  using assms(1)
proof (induction xs arbitrary: s)
  case Nil
  then show ?case by simp
next
  case (Cons y ys)
  show ?case
  proof (cases "f y s")
    case (Inl e)
    then show ?thesis by (simp add: error_eq[of e])
  next
    case (Inr s')
    show ?thesis
    proof (cases "x = y")
      case True
      then show ?thesis using assms(2)[of s] Inr by simp
    next
      case False
      then have "x \<in> set ys" using Cons.prems by simp
      then show ?thesis using Cons.IH Inr by simp
    qed
  qed
qed

lemma getProp_nullish: "v = Undefined \<or> v = Null \<Longrightarrow> getProp v k = Inl TypeError"
  by auto

lemma isConventional_getProp:
  "isConventional t \<Longrightarrow> getProp t (js k) = Inr (propOf k t)"
  by (auto simp: isConventional_def dest!: getProp_Str_Obj intro!: getProp_propOf)

lemma canonicalTrip_no_passenger_types:
  assumes "isConventional trip"
    and "\<not> isArray (propOf ''passenger_types'' trip)"
    and "propOf ''pricing'' trip \<noteq> Undefined" "propOf ''pricing'' trip \<noteq> Null"
  shows "canonicalTrip parseFloat searchDate trip =
           Inr \<lparr>date = searchDate,
                serviceType = Str (js ''CONVENCIONAL''),
                departureTimestamp = propOf ''departure'' trip,
                arrivalTimestamp = propOf ''arrival'' trip,
                price = propOf ''total'' (propOf ''pricing'' trip),
                freePassInfo = None,
                disadvantagedYouthInfo = None,
                disadvantagedYouthHalfInfo = None\<rparr>"
  using assms isConventional_getProp[OF assms(1)] getProp_propOf[OF assms(3,4), of "''total''"]
  by (simp add: canonicalTrip_def isConventional_def)


section \<open>Evaluation of the examples\<close>

lemma js_Cons: "js (c # s) = word_of_nat (of_char c) # js s" "js [] = []"
  by (simp_all add: js_def)

lemmas parse_eval =
  js_Cons isWhiteSpace_def takeSign_def unsignedDecimal_def isDigit_def
  digitsValue_def exponentPart_def pow10_def parseInt10_def Let_def

lemma parseFloat_exact_examples:
  "parseFloat_exact (Str (js ''0.00'')) = Fin 0"
  "parseFloat_exact (Str (js ''12.50'')) = Fin (25 / 2)"
  "parseFloat_exact (Str (js ''75.00'')) = Fin 75"
  "parseFloat_exact (Str (js ''5.00'')) = Fin 5"
  by (simp_all add: parse_eval)

lemmas normalizer_eval =
  processAndFilterTrips_def tripCallback_def canonicalTrip_def passengerTiers_def
  hasType_def isFreePass_def examplePayload_def exampleTrip_def examplePassengerType_def
  exampleTripNoTiers_def exampleCanonical_def js_inj numStrictEq_def

lemmas vocabulary_eval =
  isConventional_def tripsOf_def propOf_def passengerTypes_def entryOfType_def
  examplePayload_def exampleTrip_def examplePassengerType_def exampleTripNoTiers_def js_inj

lemma example_mixed:
  "processAndFilterTrips pf
     (examplePayload [exampleTrip ''EXECUTIVO'' [examplePassengerType ''general'' ''75.00''],
                      exampleTrip ''CONVENCIONAL'' [examplePassengerType ''general'' ''75.00'']])
   = ([], Inr [exampleCanonical (Num (pf (Str (js ''75.00'')))) None None None])"
  by (simp add: normalizer_eval)

lemma example_free_pass:
  assumes "pf (Str (js ''0.00'')) = Fin 0" and "pf (Str (js ''12.50'')) = Fin (25 / 2)"
  shows "processAndFilterTrips pf
     (examplePayload [exampleTrip ''CONVENCIONAL'' [examplePassengerType ''free_pass'' ''0.00''],
                      exampleTrip ''CONVENCIONAL'' [examplePassengerType ''free_pass'' ''12.50'']])
   = ([], Inr [exampleCanonical (Num (Fin 80))
                 (Some \<lparr>DiscountInfo.price = Fin 0, availability = Num (Fin 3),
                        type = js ''Gratuidade (Idoso/PCD)''\<rparr>) None None,
               exampleCanonical (Num (Fin 80)) None None None])"
  by (simp add: normalizer_eval assms)

lemma example_youth:
  assumes "pf (Str (js ''12.50'')) = Fin (25 / 2)"
  shows "processAndFilterTrips pf
     (examplePayload [exampleTrip ''CONVENCIONAL''
        [examplePassengerType ''free_pass'' ''12.50'',
         examplePassengerType ''disadvantaged_youth'' ''5.00'']])
   = ([], Inr [exampleCanonical (Num (Fin 80)) None
                 (Some \<lparr>DiscountInfo.price = pf (Str (js ''5.00'')), availability = Num (Fin 3),
                        type = js ''Jovem Baixa Renda 100%''\<rparr>) None])"
  by (simp add: normalizer_eval assms)

lemma example_no_tiers:
  "processAndFilterTrips pf (examplePayload [exampleTripNoTiers ''CONVENCIONAL''])
   = ([], Inr [exampleCanonical (Num (Fin 80)) None None None])"
  by (simp add: normalizer_eval)


section \<open>The trip normalizer: results\<close>

text \<open>
  Claim C5. When the normalizer returns, its output corresponds one to one, in the
  order of the payload, to the trips whose service is \<open>CONVENCIONAL\<close>: each record is the
  object built from the trip at the same position among them, and carries that service.
  A trip with any other service has no record in the output.
\<close>

theorem only_conventional_trips:
  assumes "processAndFilterTrips parseFloat jsonData = (msgs, Inr out)"
  shows "list_all2
           (\<lambda>trip c. trip \<in> set (tripsOf jsonData)
              \<and> getProp trip (js ''service'') = Inr (Str (js ''CONVENCIONAL''))
              \<and> canonicalTrip parseFloat (propOf ''departs'' jsonData) trip = Inr c
              \<and> serviceType c = Str (js ''CONVENCIONAL''))
           (filter isConventional (tripsOf jsonData)) out"
proof (rule normalized_trips[OF assms])
  fix t c
  assume t: "t \<in> set (tripsOf jsonData)" "isConventional t"
    and c: "canonicalTrip parseFloat (propOf ''departs'' jsonData) t = Inr c"
  have "serviceType c = propOf ''service'' t"
    by (subst canonicalTrip_Inr[OF c]) simp
  then show "t \<in> set (tripsOf jsonData)
      \<and> getProp t (js ''service'') = Inr (Str (js ''CONVENCIONAL''))
      \<and> canonicalTrip parseFloat (propOf ''departs'' jsonData) t = Inr c
      \<and> serviceType c = Str (js ''CONVENCIONAL'')"
    using t c by (simp add: isConventional_def propOf_def)
qed

text \<open>
  A payload with one trip of service \<open>EXECUTIVO\<close> and one of service \<open>CONVENCIONAL\<close>
  gives one record, for the second trip.
\<close>

theorem only_conventional_trips_witness:
  "processAndFilterTrips parseFloat_exact
     (examplePayload [exampleTrip ''EXECUTIVO'' [examplePassengerType ''general'' ''75.00''],
                      exampleTrip ''CONVENCIONAL'' [examplePassengerType ''general'' ''75.00'']])
     = ([], Inr [exampleCanonical (Num (Fin 75)) None None None])
   \<and> list_all2
       (\<lambda>trip c. getProp trip (js ''service'') = Inr (Str (js ''CONVENCIONAL''))
          \<and> serviceType c = Str (js ''CONVENCIONAL''))
       [exampleTrip ''CONVENCIONAL'' [examplePassengerType ''general'' ''75.00'']]
       [exampleCanonical (Num (Fin 75)) None None None]"
proof -
  let ?P = "examplePayload [exampleTrip ''EXECUTIVO'' [examplePassengerType ''general'' ''75.00''],
                      exampleTrip ''CONVENCIONAL'' [examplePassengerType ''general'' ''75.00'']]"
  have h: "processAndFilterTrips parseFloat_exact ?P
      = ([], Inr [exampleCanonical (Num (Fin 75)) None None None])"
    using example_mixed[of parseFloat_exact] by (simp only: parseFloat_exact_examples)
  have f: "filter isConventional (tripsOf ?P)
      = [exampleTrip ''CONVENCIONAL'' [examplePassengerType ''general'' ''75.00'']]"
    by (simp add: vocabulary_eval)
  show ?thesis
    using h only_conventional_trips[OF h, unfolded f] by simp
qed

text \<open>
  Claim C2. When the normalizer returns, the record of each \<open>CONVENCIONAL\<close> trip has a
  free-pass sub-record if and only if the trip's \<open>passenger_types\<close> has an entry of type
  \<open>free_pass\<close> whose total \<open>parseFloat\<close> maps to a number equal to \<open>0.0\<close>, and a
  sub-record that is present has the price \<open>0.0\<close>. This holds for every function in the
  place of \<open>parseFloat\<close>.
\<close>

theorem free_pass_rule:
  assumes "processAndFilterTrips parseFloat jsonData = (msgs, Inr out)"
  shows "list_all2
           (\<lambda>trip c.
              (freePassInfo c \<noteq> None \<longleftrightarrow>
                 (\<exists>pt \<in> set (passengerTypes trip).
                    getProp pt (js ''type'') = Inr (Str (js ''free_pass''))
                    \<and> numStrictEq (parseFloat (propOf ''total'' pt)) (Fin 0)))
              \<and> (\<forall>info. freePassInfo c = Some info \<longrightarrow> DiscountInfo.price info = Fin 0))
           (filter isConventional (tripsOf jsonData)) out"
proof (rule normalized_trips[OF assms])
  fix t c
  assume c: "canonicalTrip parseFloat (propOf ''departs'' jsonData) t = Inr c"
  have f: "freePassInfo c =
      map_option (\<lambda>e. \<lparr>DiscountInfo.price = Fin 0, availability = propOf ''availability'' e,
                         type = js ''Gratuidade (Idoso/PCD)''\<rparr>)
        (List.find (freePassEntry parseFloat) (passengerTypes t))"
    by (subst canonicalTrip_Inr[OF c]) simp
  have "freePassInfo c \<noteq> None \<longleftrightarrow> (\<exists>pt \<in> set (passengerTypes t). freePassEntry parseFloat pt)"
    by (auto simp: f find_None_iff)
  moreover have "\<forall>info. freePassInfo c = Some info \<longrightarrow> DiscountInfo.price info = Fin 0"
    by (auto simp: f)
  ultimately show "(freePassInfo c \<noteq> None \<longleftrightarrow>
        (\<exists>pt \<in> set (passengerTypes t).
           getProp pt (js ''type'') = Inr (Str (js ''free_pass''))
           \<and> numStrictEq (parseFloat (propOf ''total'' pt)) (Fin 0)))
      \<and> (\<forall>info. freePassInfo c = Some info \<longrightarrow> DiscountInfo.price info = Fin 0)"
    by (simp add: freePassEntry_def entryOfType_def)
qed

text \<open>
  The two examples of the specification: the entry with total \<open>0.00\<close> gives a free-pass
  sub-record of price 0, the entry with total \<open>12.50\<close> gives none.
\<close>

theorem free_pass_rule_witness:
  "processAndFilterTrips parseFloat_exact
     (examplePayload [exampleTrip ''CONVENCIONAL'' [examplePassengerType ''free_pass'' ''0.00''],
                      exampleTrip ''CONVENCIONAL'' [examplePassengerType ''free_pass'' ''12.50'']])
     = ([], Inr [exampleCanonical (Num (Fin 80))
                   (Some \<lparr>DiscountInfo.price = Fin 0, availability = Num (Fin 3),
                          type = js ''Gratuidade (Idoso/PCD)''\<rparr>) None None,
                 exampleCanonical (Num (Fin 80)) None None None])
   \<and> list_all2
       (\<lambda>trip c.
          (freePassInfo c \<noteq> None \<longleftrightarrow>
             (\<exists>pt \<in> set (passengerTypes trip).
                getProp pt (js ''type'') = Inr (Str (js ''free_pass''))
                \<and> numStrictEq (parseFloat_exact (propOf ''total'' pt)) (Fin 0)))
          \<and> (\<forall>info. freePassInfo c = Some info \<longrightarrow> DiscountInfo.price info = Fin 0))
       [exampleTrip ''CONVENCIONAL'' [examplePassengerType ''free_pass'' ''0.00''],
        exampleTrip ''CONVENCIONAL'' [examplePassengerType ''free_pass'' ''12.50'']]
       [exampleCanonical (Num (Fin 80))
          (Some \<lparr>DiscountInfo.price = Fin 0, availability = Num (Fin 3),
                 type = js ''Gratuidade (Idoso/PCD)''\<rparr>) None None,
        exampleCanonical (Num (Fin 80)) None None None]"
proof -
  let ?P = "examplePayload
      [exampleTrip ''CONVENCIONAL'' [examplePassengerType ''free_pass'' ''0.00''],
       exampleTrip ''CONVENCIONAL'' [examplePassengerType ''free_pass'' ''12.50'']]"
  note h = example_free_pass[of parseFloat_exact, OF parseFloat_exact_examples(1,2)]
  have f: "filter isConventional (tripsOf ?P)
      = [exampleTrip ''CONVENCIONAL'' [examplePassengerType ''free_pass'' ''0.00''],
         exampleTrip ''CONVENCIONAL'' [examplePassengerType ''free_pass'' ''12.50'']]"
    by (simp add: vocabulary_eval)
  show ?thesis
    by (rule conjI[OF h free_pass_rule[OF h, unfolded f]])
qed

text \<open>
  Claim C3, as amended. When the normalizer returns, the record of each \<open>CONVENCIONAL\<close>
  trip has the sub-record \<open>disadvantagedYouthInfo\<close> if and only if \<open>passenger_types\<close> has
  an entry of type \<open>disadvantaged_youth\<close>, and the sub-record
  \<open>disadvantagedYouthHalfInfo\<close> if and only if it has an entry of type
  \<open>disadvantaged_youth_half\<close>; it has the sub-record \<open>freePassInfo\<close> if and only if it
  has an entry of type \<open>free_pass\<close> whose total parses to a number equal to \<open>0.0\<close>.
\<close>

theorem discount_records_present:
  assumes "processAndFilterTrips parseFloat jsonData = (msgs, Inr out)"
  shows "list_all2
           (\<lambda>trip c.
              (disadvantagedYouthInfo c \<noteq> None \<longleftrightarrow>
                 (\<exists>pt \<in> set (passengerTypes trip). entryOfType ''disadvantaged_youth'' pt))
              \<and> (disadvantagedYouthHalfInfo c \<noteq> None \<longleftrightarrow>
                 (\<exists>pt \<in> set (passengerTypes trip). entryOfType ''disadvantaged_youth_half'' pt))
              \<and> (freePassInfo c \<noteq> None \<longleftrightarrow>
                 (\<exists>pt \<in> set (passengerTypes trip).
                    entryOfType ''free_pass'' pt
                    \<and> numStrictEq (parseFloat (propOf ''total'' pt)) (Fin 0))))
           (filter isConventional (tripsOf jsonData)) out"
proof (rule normalized_trips[OF assms])
  fix t c
  assume c: "canonicalTrip parseFloat (propOf ''departs'' jsonData) t = Inr c"
  note r = canonicalTrip_Inr[OF c]
  have "disadvantagedYouthInfo c \<noteq> None \<longleftrightarrow>
      (\<exists>pt \<in> set (passengerTypes t). entryOfType ''disadvantaged_youth'' pt)"
    by (subst r) (auto simp: find_None_iff)
  moreover have "disadvantagedYouthHalfInfo c \<noteq> None \<longleftrightarrow>
      (\<exists>pt \<in> set (passengerTypes t). entryOfType ''disadvantaged_youth_half'' pt)"
    by (subst r) (auto simp: find_None_iff)
  moreover have "freePassInfo c \<noteq> None \<longleftrightarrow>
      (\<exists>pt \<in> set (passengerTypes t). entryOfType ''free_pass'' pt
         \<and> numStrictEq (parseFloat (propOf ''total'' pt)) (Fin 0))"
    by (subst r) (auto simp: find_None_iff freePassEntry_def)
  ultimately show "(disadvantagedYouthInfo c \<noteq> None \<longleftrightarrow>
        (\<exists>pt \<in> set (passengerTypes t). entryOfType ''disadvantaged_youth'' pt))
      \<and> (disadvantagedYouthHalfInfo c \<noteq> None \<longleftrightarrow>
        (\<exists>pt \<in> set (passengerTypes t). entryOfType ''disadvantaged_youth_half'' pt))
      \<and> (freePassInfo c \<noteq> None \<longleftrightarrow>
        (\<exists>pt \<in> set (passengerTypes t). entryOfType ''free_pass'' pt
           \<and> numStrictEq (parseFloat (propOf ''total'' pt)) (Fin 0)))"
    by blast
qed

text \<open>
  An entry of type \<open>free_pass\<close> alone does not give the free-pass sub-record: with the
  total \<open>12.50\<close> the trip has such an entry and its record has none.
\<close>

theorem discount_records_free_pass_counterexample:
  "isConventional (exampleTrip ''CONVENCIONAL'' [examplePassengerType ''free_pass'' ''12.50''])
   \<and> list_ex (entryOfType ''free_pass'')
       (passengerTypes (exampleTrip ''CONVENCIONAL'' [examplePassengerType ''free_pass'' ''12.50'']))
   \<and> processAndFilterTrips parseFloat_exact
       (examplePayload [exampleTrip ''CONVENCIONAL'' [examplePassengerType ''free_pass'' ''12.50'']])
     = ([], Inr [exampleCanonical (Num (Fin 80)) None None None])
   \<and> freePassInfo (exampleCanonical (Num (Fin 80)) None None None) = None"
proof -
  have "processAndFilterTrips pf
       (examplePayload [exampleTrip ''CONVENCIONAL'' [examplePassengerType ''free_pass'' ''12.50'']])
     = ([], Inr [exampleCanonical (Num (Fin 80)) None None None])"
    if "pf (Str (js ''12.50'')) = Fin (25 / 2)" for pf
    using that by (simp add: normalizer_eval)
  from this[of parseFloat_exact, OF parseFloat_exact_examples(2)] show ?thesis
    by (simp add: vocabulary_eval exampleCanonical_def)
qed

text \<open>
  A trip with a free-pass entry of total \<open>12.50\<close> and a \<open>disadvantaged_youth\<close> entry of
  total \<open>5.00\<close>: the youth sub-record is present, with price 5, the other two are not.
\<close>

theorem discount_records_present_witness:
  "processAndFilterTrips parseFloat_exact
     (examplePayload [exampleTrip ''CONVENCIONAL''
        [examplePassengerType ''free_pass'' ''12.50'',
         examplePassengerType ''disadvantaged_youth'' ''5.00'']])
     = ([], Inr [exampleCanonical (Num (Fin 80)) None
                   (Some \<lparr>DiscountInfo.price = Fin 5, availability = Num (Fin 3),
                          type = js ''Jovem Baixa Renda 100%''\<rparr>) None])
   \<and> list_all2
       (\<lambda>trip c.
          (disadvantagedYouthInfo c \<noteq> None \<longleftrightarrow>
             (\<exists>pt \<in> set (passengerTypes trip). entryOfType ''disadvantaged_youth'' pt))
          \<and> (disadvantagedYouthHalfInfo c \<noteq> None \<longleftrightarrow>
             (\<exists>pt \<in> set (passengerTypes trip). entryOfType ''disadvantaged_youth_half'' pt))
          \<and> (freePassInfo c \<noteq> None \<longleftrightarrow>
             (\<exists>pt \<in> set (passengerTypes trip).
                entryOfType ''free_pass'' pt
                \<and> numStrictEq (parseFloat_exact (propOf ''total'' pt)) (Fin 0))))
       [exampleTrip ''CONVENCIONAL''
          [examplePassengerType ''free_pass'' ''12.50'',
           examplePassengerType ''disadvantaged_youth'' ''5.00'']]
       [exampleCanonical (Num (Fin 80)) None
          (Some \<lparr>DiscountInfo.price = Fin 5, availability = Num (Fin 3),
                 type = js ''Jovem Baixa Renda 100%''\<rparr>) None]"
proof -
  let ?P = "examplePayload [exampleTrip ''CONVENCIONAL''
        [examplePassengerType ''free_pass'' ''12.50'',
         examplePassengerType ''disadvantaged_youth'' ''5.00'']]"
  note h = example_youth[of parseFloat_exact, OF parseFloat_exact_examples(2),
      unfolded parseFloat_exact_examples(4)]
  have f: "filter isConventional (tripsOf ?P)
      = [exampleTrip ''CONVENCIONAL''
          [examplePassengerType ''free_pass'' ''12.50'',
           examplePassengerType ''disadvantaged_youth'' ''5.00'']]"
    by (simp add: vocabulary_eval)
  show ?thesis
    by (rule conjI[OF h discount_records_present[OF h, unfolded f]])
qed

text \<open>
  Claim C6. When the normalizer returns, the price of the record of each \<open>CONVENCIONAL\<close>
  trip is the number \<open>parseFloat\<close> gives for the total of the entry of type \<open>general\<close>,
  when there is such an entry and its total is not \<open>undefined\<close>, and is the trip's
  \<open>pricing.total\<close> otherwise. The entry is the one \<open>find\<close> returns: the first of that
  type in \<open>passenger_types\<close>.
\<close>

theorem general_price:
  assumes "processAndFilterTrips parseFloat jsonData = (msgs, Inr out)"
  shows "list_all2
           (\<lambda>trip c.
              CanonicalTrip.price c =
                (case List.find (entryOfType ''general'') (passengerTypes trip) of
                   Some pt \<Rightarrow>
                     if propOf ''total'' pt \<noteq> Undefined
                     then Num (parseFloat (propOf ''total'' pt))
                     else propOf ''total'' (propOf ''pricing'' trip)
                 | None \<Rightarrow> propOf ''total'' (propOf ''pricing'' trip)))
           (filter isConventional (tripsOf jsonData)) out"
proof (rule normalized_trips[OF assms])
  fix t c
  assume c: "canonicalTrip parseFloat (propOf ''departs'' jsonData) t = Inr c"
  show "CanonicalTrip.price c =
      (case List.find (entryOfType ''general'') (passengerTypes t) of
         Some pt \<Rightarrow>
           if propOf ''total'' pt \<noteq> Undefined
           then Num (parseFloat (propOf ''total'' pt))
           else propOf ''total'' (propOf ''pricing'' t)
       | None \<Rightarrow> propOf ''total'' (propOf ''pricing'' t))"
    by (subst canonicalTrip_Inr[OF c]) (simp add: generalPriceOf_def)
qed

text \<open>
  The second scenario of the specification: pricing total 80 and a general entry of total
  \<open>75.00\<close> give the price 75; a trip without entries keeps the price 80.
\<close>

theorem general_price_witness:
  "processAndFilterTrips parseFloat_exact
     (examplePayload [exampleTrip ''CONVENCIONAL'' [examplePassengerType ''general'' ''75.00''],
                      exampleTripNoTiers ''CONVENCIONAL''])
     = ([], Inr [exampleCanonical (Num (Fin 75)) None None None,
                 exampleCanonical (Num (Fin 80)) None None None])
   \<and> list_all2
       (\<lambda>trip c.
          CanonicalTrip.price c =
            (case List.find (entryOfType ''general'') (passengerTypes trip) of
               Some pt \<Rightarrow>
                 if propOf ''total'' pt \<noteq> Undefined
                 then Num (parseFloat_exact (propOf ''total'' pt))
                 else propOf ''total'' (propOf ''pricing'' trip)
             | None \<Rightarrow> propOf ''total'' (propOf ''pricing'' trip)))
       [exampleTrip ''CONVENCIONAL'' [examplePassengerType ''general'' ''75.00''],
        exampleTripNoTiers ''CONVENCIONAL'']
       [exampleCanonical (Num (Fin 75)) None None None,
        exampleCanonical (Num (Fin 80)) None None None]"
proof -
  let ?P = "examplePayload [exampleTrip ''CONVENCIONAL'' [examplePassengerType ''general'' ''75.00''],
                      exampleTripNoTiers ''CONVENCIONAL'']"
  have "processAndFilterTrips pf ?P
      = ([], Inr [exampleCanonical (Num (pf (Str (js ''75.00'')))) None None None,
                  exampleCanonical (Num (Fin 80)) None None None])" for pf
    by (simp add: normalizer_eval)
  note h = this[of parseFloat_exact, unfolded parseFloat_exact_examples(3)]
  have f: "filter isConventional (tripsOf ?P)
      = [exampleTrip ''CONVENCIONAL'' [examplePassengerType ''general'' ''75.00''],
         exampleTripNoTiers ''CONVENCIONAL'']"
    by (simp add: vocabulary_eval)
  show ?thesis
    by (rule conjI[OF h general_price[OF h, unfolded f]])
qed



text \<open>
  Claim C9. When the \<open>trips\<close> array holds a trip whose service is \<open>CONVENCIONAL\<close> and
  whose \<open>pricing\<close> is absent (or \<open>null\<close>), reading \<open>trip.pricing.total\<close> throws: the
  normalizer ends with a TypeError and returns no array, for any other content of the
  payload.
\<close>

theorem missing_pricing_throws:
  assumes "getProp jsonData (js ''trips'') = Inr (Arr trips)"
    and "trip \<in> set trips"
    and "isConventional trip"
    and "propOf ''pricing'' trip = Undefined \<or> propOf ''pricing'' trip = Null"
  shows "processAndFilterTrips parseFloat jsonData = ([], Inl TypeError)"
proof -
  obtain ps where o: "jsonData = Obj ps" using getProp_Arr_Obj[OF assms(1)] by blast
  have d: "getProp jsonData (js ''departs'') = Inr (propOf ''departs'' jsonData)"
    using o getProp_propOf[of jsonData "''departs''"] by simp
  have "canonicalTrip parseFloat d' trip = Inl TypeError" for d'
    using isConventional_getProp[OF assms(3), of "''pricing''"] getProp_nullish[OF assms(4)]
    by (simp add: canonicalTrip_def)
  then have cb: "tripCallback parseFloat d' trip s = Inl TypeError" for d' s
    using assms(3) by (simp add: tripCallback_def isConventional_def)
  have "forEach (tripCallback parseFloat d') trips [] = Inl TypeError" for d'
    by (rule forEach_Inl[OF assms(2)]) (rule cb)
  then show ?thesis
    using assms(1) d o by (simp add: processAndFilterTrips_def js_inj)
qed

text \<open>A well-formed trip followed by one that has a service and nothing else.\<close>

theorem missing_pricing_throws_witness:
  "getProp (examplePayload [exampleTripNoTiers ''CONVENCIONAL'',
                            Obj [(js ''service'', Str (js ''CONVENCIONAL''))]]) (js ''trips'')
     = Inr (Arr [exampleTripNoTiers ''CONVENCIONAL'',
                 Obj [(js ''service'', Str (js ''CONVENCIONAL''))]])
   \<and> isConventional (Obj [(js ''service'', Str (js ''CONVENCIONAL''))])
   \<and> propOf ''pricing'' (Obj [(js ''service'', Str (js ''CONVENCIONAL''))]) = Undefined
   \<and> processAndFilterTrips parseFloat_exact
        (examplePayload [exampleTripNoTiers ''CONVENCIONAL'',
                         Obj [(js ''service'', Str (js ''CONVENCIONAL''))]])
       = ([], Inl TypeError)"
proof -
  let ?t = "Obj [(js ''service'', Str (js ''CONVENCIONAL''))]"
  let ?ts = "[exampleTripNoTiers ''CONVENCIONAL'', ?t]"
  have a: "getProp (examplePayload ?ts) (js ''trips'') = Inr (Arr ?ts)"
    by (simp add: examplePayload_def js_inj)
  have b: "?t \<in> set ?ts" by simp
  have c: "isConventional ?t" by (simp add: isConventional_def)
  have d: "propOf ''pricing'' ?t = Undefined" by (simp add: propOf_def js_inj)
  have d': "propOf ''pricing'' ?t = Undefined \<or> propOf ''pricing'' ?t = Null"
    using d by simp
  from a c d missing_pricing_throws[OF a b c d', of parseFloat_exact] show ?thesis
    by blast
qed

text \<open>
  Claim C10, as amended. For a \<open>CONVENCIONAL\<close> trip whose \<open>passenger_types\<close> is absent
  or not an array: when its \<open>pricing\<close> is neither \<open>undefined\<close> nor \<open>null\<close>, the callback
  pushes a record with the trip's \<open>pricing.total\<close> as price and without any of the three
  sub-records; and whenever the normalizer returns for a payload that holds the trip,
  that record is in the output.
\<close>

theorem missing_passenger_types:
  assumes "isConventional trip"
    and "\<not> isArray (propOf ''passenger_types'' trip)"
  defines "c \<equiv> \<lambda>searchDate.
             \<lparr>date = searchDate,
              serviceType = Str (js ''CONVENCIONAL''),
              departureTimestamp = propOf ''departure'' trip,
              arrivalTimestamp = propOf ''arrival'' trip,
              price = propOf ''total'' (propOf ''pricing'' trip),
              freePassInfo = None,
              disadvantagedYouthInfo = None,
              disadvantagedYouthHalfInfo = None\<rparr>"
  shows "(propOf ''pricing'' trip \<noteq> Undefined \<and> propOf ''pricing'' trip \<noteq> Null \<longrightarrow>
            tripCallback parseFloat searchDate trip conventionalTrips
              = Inr (conventionalTrips @ [c searchDate]))
       \<and> (processAndFilterTrips parseFloat jsonData = (msgs, Inr out)
            \<and> trip \<in> set (tripsOf jsonData) \<longrightarrow>
            c (propOf ''departs'' jsonData) \<in> set out)"
proof (intro conjI impI)
  assume "propOf ''pricing'' trip \<noteq> Undefined \<and> propOf ''pricing'' trip \<noteq> Null"
  then show "tripCallback parseFloat searchDate trip conventionalTrips
      = Inr (conventionalTrips @ [c searchDate])"
    using assms(1) canonicalTrip_no_passenger_types[OF assms(1,2), of parseFloat searchDate]
    by (simp add: tripCallback_def isConventional_def c_def)
next
  assume a: "processAndFilterTrips parseFloat jsonData = (msgs, Inr out)
      \<and> trip \<in> set (tripsOf jsonData)"
  define fs where "fs = filter isConventional (tripsOf jsonData)"
  have "trip \<in> set fs"
    using a assms(1) by (simp add: fs_def)
  then obtain i where i: "i < length fs" "fs ! i = trip"
    by (auto simp: in_set_conv_nth)
  have l: "list_all2 (\<lambda>t r. canonicalTrip parseFloat (propOf ''departs'' jsonData) t = Inr r) fs out"
    unfolding fs_def using a processAndFilterTrips_Inr by blast
  have r: "out ! i \<in> set out"
    "canonicalTrip parseFloat (propOf ''departs'' jsonData) trip = Inr (out ! i)"
    using list_all2_nthD[OF l i(1)] list_all2_lengthD[OF l] i by simp_all
  have pt: "passengerTypes trip = []"
    using passengerTypes_eq[OF isConventional_getProp[OF assms(1), of "''passenger_types''"]] assms(2)
    by simp
  have "out ! i = c (propOf ''departs'' jsonData)"
    using assms(1) isConventional_getProp[OF assms(1), of "''service''"]
    by (subst canonicalTrip_Inr[OF r(2)]) (simp add: pt c_def isConventional_def)
  then show "c (propOf ''departs'' jsonData) \<in> set out" using r(1) by simp
qed

text \<open>
  Without the condition on \<open>pricing\<close> the statement fails: a trip that has a service
  and nothing else has no \<open>passenger_types\<close> array, and reading its
  \<open>pricing.total\<close> throws before \<open>passenger_types\<close> is looked at. No record is
  produced for it, nor for a well-formed trip before it.
\<close>

theorem missing_passenger_types_counterexample:
  "isConventional (Obj [(js ''service'', Str (js ''CONVENCIONAL''))])
   \<and> \<not> isArray (propOf ''passenger_types'' (Obj [(js ''service'', Str (js ''CONVENCIONAL''))]))
   \<and> processAndFilterTrips parseFloat_exact
         (examplePayload [Obj [(js ''service'', Str (js ''CONVENCIONAL''))]])
       = ([], Inl TypeError)
   \<and> processAndFilterTrips parseFloat_exact
         (examplePayload [exampleTripNoTiers ''CONVENCIONAL'',
                          Obj [(js ''service'', Str (js ''CONVENCIONAL''))]])
       = ([], Inl TypeError)"
proof -
  have "processAndFilterTrips pf
         (examplePayload [Obj [(js ''service'', Str (js ''CONVENCIONAL''))]])
       = ([], Inl TypeError)"
    and "processAndFilterTrips pf
         (examplePayload [exampleTripNoTiers ''CONVENCIONAL'',
                          Obj [(js ''service'', Str (js ''CONVENCIONAL''))]])
       = ([], Inl TypeError)" for pf
    by (simp_all add: normalizer_eval)
  then show ?thesis
    by (simp add: isConventional_def propOf_def js_inj)
qed

text \<open>A trip without a \<open>passenger_types\<close> property, alone in its payload.\<close>

theorem missing_passenger_types_witness:
  "isConventional (exampleTripNoTiers ''CONVENCIONAL'')
   \<and> \<not> isArray (propOf ''passenger_types'' (exampleTripNoTiers ''CONVENCIONAL''))
   \<and> processAndFilterTrips parseFloat_exact (examplePayload [exampleTripNoTiers ''CONVENCIONAL''])
       = ([], Inr [exampleCanonical (Num (Fin 80)) None None None])
   \<and> tripCallback parseFloat_exact (Str (js ''2025-01-02'')) (exampleTripNoTiers ''CONVENCIONAL'') []
       = Inr [exampleCanonical (Num (Fin 80)) None None None]
   \<and> exampleCanonical (Num (Fin 80)) None None None
       \<in> set [exampleCanonical (Num (Fin 80)) None None None]"
proof -
  let ?t = "exampleTripNoTiers ''CONVENCIONAL''"
  have a: "isConventional ?t" by (simp add: vocabulary_eval)
  have b: "\<not> isArray (propOf ''passenger_types'' ?t)" by (simp add: vocabulary_eval)
  note h = example_no_tiers[of parseFloat_exact]
  have m: "?t \<in> set (tripsOf (examplePayload [?t]))" by (simp add: vocabulary_eval)
  have p: "propOf ''pricing'' ?t \<noteq> Undefined \<and> propOf ''pricing'' ?t \<noteq> Null"
    by (simp add: vocabulary_eval)
  have v: "propOf ''departs'' (examplePayload [?t]) = Str (js ''2025-01-02'')"
    "propOf ''departure'' ?t = Str (js ''2025-01-02T08:00:00'')"
    "propOf ''arrival'' ?t = Str (js ''2025-01-02T20:00:00'')"
    "propOf ''total'' (propOf ''pricing'' ?t) = Num (Fin 80)"
    by (simp_all add: vocabulary_eval)
  note t = missing_passenger_types[OF a b, of parseFloat_exact "Str (js ''2025-01-02'')" "[]"
      "examplePayload [?t]" "[]" "[exampleCanonical (Num (Fin 80)) None None None]"]
  show ?thesis
    using a b h m p t by (simp add: v exampleCanonical_def)
qed

section \<open>The selection prompt: results\<close>

text \<open>
  Claim C4. The handler of the answer rejects the promise when \<open>parseInt\<close> gives
  not-a-number, resolves it with \<open>null\<close> for 0 and with the chosen route for a number from
  1 to the number of routes. For any other number no branch is taken: with the four
  configured routes, the answers \<open>5\<close> and \<open>-1\<close> leave the promise pending, neither
  resolved nor rejected.
\<close>

theorem prompt_out_of_range_pending:
  "parseInt10 (js ''5'') = Some 5
   \<and> length tripOptionsConfig = 4
   \<and> promptUserForTripSelection tripOptionsConfig (js ''5'') = Pending
   \<and> promptUserForTripSelection tripOptionsConfig (js ''-1'') = Pending
   \<and> promptUserForTripSelection tripOptionsConfig (js ''0'') = Resolved None
   \<and> promptUserForTripSelection tripOptionsConfig (js ''4'')
       = Resolved (Some (''goiania'', ''sao-paulo''))"
  by (simp add: promptUserForTripSelection_def tripOptionsConfig_def parse_eval)

end
